theory Spec2Isabelle
  imports Complex_Main
begin

section \<open>Compartment models: data model\<close>

text \<open>
  The development follows \<^verbatim>\<open>compartment.py\<close>. Array entries are modelled as
  real numbers, a state vector as a list of reals, and every Python exception as a value
  of \<open>error\<close>. A floating-point operation that leaves the reals (division by a zero
  population, the square root of a negative number) yields an inf/nan entry in the
  program; it has no real value and is recorded as \<open>NonFinite\<close>.
\<close>

datatype error = ValueError | TypeError | IndexError | NonFinite | IntegrationFailure

type_synonym 'r result = "error + 'r"

text \<open>Sequencing of fallible computations: the first failure is the outcome.\<close>

definition bind_err :: "'a result \<Rightarrow> ('a \<Rightarrow> 'b result) \<Rightarrow> 'b result" where
  "bind_err m f = (case m of Inl e \<Rightarrow> Inl e | Inr x \<Rightarrow> f x)"

fun sequence_err :: "'a result list \<Rightarrow> 'a list result" where
  "sequence_err [] = Inr []"
| "sequence_err (m # ms) =
     bind_err m (\<lambda>x. bind_err (sequence_err ms) (\<lambda>xs. Inr (x # xs)))"

type_synonym state = "real list"

text \<open>
  A derivative function \<open>dx_dt(x, t, *args)\<close>. In a single run the extra arguments are
  scalars (\<open>'a = real\<close>); for a flattened batch each is a vector with one value per
  instance (\<open>'a = real list\<close>).
\<close>

type_synonym 'a deriv = "state \<Rightarrow> real \<Rightarrow> 'a list \<Rightarrow> state result"

text \<open>
  An integrator as returned by \<open>build_odeint(f, ...)\<close>: initial state, query times and
  extra arguments to the states at the query times. The adaptive integrator is a library
  function and is a parameter of everything below.
\<close>

type_synonym 'a odeint = "state \<Rightarrow> real list \<Rightarrow> 'a list \<Rightarrow> state list result"

section \<open>Concrete models\<close>

definition np_div :: "real \<Rightarrow> real \<Rightarrow> real result" where
  "np_div a b = (if b = 0 then Inl NonFinite else Inr (a / b))"

definition np_sqrt :: "real \<Rightarrow> real result" where
  "np_sqrt a = (if a < 0 then Inl NonFinite else Inr (sqrt a))"

subsection \<open>SIR\<close>

definition sir_dx_dt :: "real deriv" where
  "sir_dx_dt x t args =
     (case args of
        [beta, gamma] \<Rightarrow>
          (case x of
             [S, I, R, C] \<Rightarrow>
               (let N = S + I + R in
                bind_err (np_div (beta * S * I) N) (\<lambda>q.
                  let dS_dt = - q;
                      dI_dt = q - gamma * I;
                      dR_dt = gamma * I;
                      dC_dt = q
                  in Inr [dS_dt, dI_dt, dR_dt, dC_dt]))
           | _ \<Rightarrow> Inl ValueError)
      | _ \<Rightarrow> Inl TypeError)"

definition sir_R0 :: "real list \<Rightarrow> real result" where
  "sir_R0 theta = (case theta of [beta, gamma] \<Rightarrow> np_div beta gamma | _ \<Rightarrow> Inl ValueError)"

definition sir_growth_rate :: "real list \<Rightarrow> real result" where
  "sir_growth_rate theta =
     (case theta of [beta, gamma] \<Rightarrow> Inr (beta - gamma) | _ \<Rightarrow> Inl ValueError)"

definition sir_seed :: "real \<Rightarrow> real \<Rightarrow> state" where
  "sir_seed N I = [N - I, I, 0, I]"

subsection \<open>SEIR\<close>

definition seir_dx_dt :: "real deriv" where
  "seir_dx_dt x t args =
     (case args of
        [beta, sigma, gamma] \<Rightarrow>
          (case x of
             [S, E, I, R, C] \<Rightarrow>
               (let N = S + E + I + R in
                bind_err (np_div (beta * S * I) N) (\<lambda>q.
                  let dS_dt = - q;
                      dE_dt = q - sigma * E;
                      dI_dt = sigma * E - gamma * I;
                      dR_dt = gamma * I;
                      dC_dt = sigma * E
                  in Inr [dS_dt, dE_dt, dI_dt, dR_dt, dC_dt]))
           | _ \<Rightarrow> Inl ValueError)
      | _ \<Rightarrow> Inl TypeError)"

definition seir_R0 :: "real list \<Rightarrow> real result" where
  "seir_R0 theta =
     (case theta of [beta, sigma, gamma] \<Rightarrow> np_div beta gamma | _ \<Rightarrow> Inl ValueError)"

definition seir_growth_rate :: "real list \<Rightarrow> real result" where
  "seir_growth_rate theta =
     (case theta of
        [beta, sigma, gamma] \<Rightarrow>
          bind_err (np_sqrt ((sigma - gamma)\<^sup>2 + 4 * sigma * beta)) (\<lambda>r.
            Inr ((- (sigma + gamma) + r) / 2))
      | _ \<Rightarrow> Inl ValueError)"

definition seir_seed :: "real \<Rightarrow> real \<Rightarrow> real \<Rightarrow> state" where
  "seir_seed N I E = [N - E - I, E, I, 0, I]"

section \<open>The simulation engine: single runs\<close>

text \<open>
  An entry of the parameter tuple \<open>theta\<close> of \<open>run\<close> is a scalar or a vector with one
  value per step.
\<close>

datatype param = Scalar real | Vec "real list"

fun ndim :: "param \<Rightarrow> nat" where
  "ndim (Scalar r) = 0"
| "ndim (Vec v) = 1"

text \<open>The values of the 0-dimensional entries, in order: what \<open>*theta\<close> passes on the
  constant-parameter path, where every entry is 0-dimensional.\<close>

fun scalar_values :: "param list \<Rightarrow> real list" where
  "scalar_values [] = []"
| "scalar_values (Scalar r # as) = r # scalar_values as"
| "scalar_values (Vec v # as) = scalar_values as"

text \<open>
  \<open>np.broadcast_to(a, (n,))\<close> of \<open>jax.numpy\<close>. The shapes are compared first: a vector
  must have length \<open>n\<close> or length 1, or the call raises \<open>ValueError\<close>. A scalar or a
  vector of length 1 is then repeated \<open>n\<close> times by \<open>broadcast_in_dim\<close>, which raises
  \<open>TypeError\<close> for a negative \<open>n\<close>.
\<close>

definition broadcast_to :: "param \<Rightarrow> int \<Rightarrow> real list result" where
  "broadcast_to a n =
     (case a of
        Scalar r \<Rightarrow> if n < 0 then Inl TypeError else Inr (replicate (nat n) r)
      | Vec v \<Rightarrow>
          if int (length v) = n then Inr v
          else if length v = 1
            then (if n < 0 then Inl TypeError else Inr (replicate (nat n) (hd v)))
          else Inl ValueError)"

text \<open>\<open>np.arange(T, dtype='float32')\<close>.\<close>

definition arange :: "int \<Rightarrow> real list" where
  "arange T = map real_of_int [0..T - 1]"

definition index_at :: "'a list \<Rightarrow> nat \<Rightarrow> 'a result" where
  "index_at xs i = (if i < length xs then Inr (xs ! i) else Inl IndexError)"

text \<open>\<open>np.vstack((x0, X))\<close>: the rows must agree in length.\<close>

definition vstack :: "state \<Rightarrow> state list \<Rightarrow> state list result" where
  "vstack x0 X =
     (if list_all (\<lambda>r. length r = length x0) X then Inr (x0 # X) else Inl ValueError)"

text \<open>
  \<open>jax.lax.scan(f, init, xs, length)\<close>: \<open>xs\<close> is a tuple of arrays whose leading axes
  all have the given length; step \<open>k\<close> receives the tuple of their \<open>k\<close>-th slices.

  Before it runs any step, \<open>scan\<close> traces \<open>f\<close> once, on abstract values of the shapes of
  the carry and of one slice, whatever the length; an exception raised in this call is
  raised by \<open>scan\<close>. With at least one slice the trace raises what the first step raises,
  so it shows only for an empty sequence. There the model evaluates \<open>f\<close> on the initial
  carry and on \<open>x_aval\<close>, a slice of placeholder values that stands for the abstract
  slice (JAX reads its shape off \<open>xs\<close>; a list without rows does not record it, so it
  is passed along). A trace has no values: \<open>NonFinite\<close>, which stands for a non-finite
  number and not for an exception, does not arise in it. JAX also requires the traced
  step to return a carry of the type of \<open>init\<close>; this check is not modelled.
\<close>

definition traced :: "'r result \<Rightarrow> unit result" where
  "traced m = (case m of Inl e \<Rightarrow> if e = NonFinite then Inr () else Inl e | Inr y \<Rightarrow> Inr ())"

fun scan_loop :: "('c \<Rightarrow> 'x \<Rightarrow> ('c \<times> 'y) result) \<Rightarrow> 'c \<Rightarrow> 'x list \<Rightarrow> ('c \<times> 'y list) result" where
  "scan_loop f c [] = Inr (c, [])"
| "scan_loop f c (x # xs) =
     bind_err (f c x) (\<lambda>(c', y).
       bind_err (scan_loop f c' xs) (\<lambda>(cf, ys). Inr (cf, y # ys)))"

definition slices :: "'a list list \<Rightarrow> nat \<Rightarrow> 'a list list" where
  "slices xs n = map (\<lambda>k. map (\<lambda>a. a ! k) xs) [0..<n]"

definition scan :: "('c \<Rightarrow> 'a list \<Rightarrow> ('c \<times> 'y) result) \<Rightarrow> 'c \<Rightarrow> 'a list list \<Rightarrow> 'a list
    \<Rightarrow> int \<Rightarrow> ('c \<times> 'y list) result" where
  "scan f init xs x_aval n =
     (if n < 0 \<or> \<not> list_all (\<lambda>a. int (length a) = n) xs then Inl ValueError
      else if n = 0 then bind_err (traced (f init x_aval)) (\<lambda>u. Inr (init, []))
      else scan_loop f init (slices xs (nat n)))"

definition t_one_step :: "real list" where
  "t_one_step = [0, 1]"

definition run_static :: "real odeint \<Rightarrow> int \<Rightarrow> state \<Rightarrow> real list \<Rightarrow> state list result" where
  "run_static odeint T x0 theta = (let t = arange T in odeint x0 t theta)"

definition advance :: "real odeint \<Rightarrow> state \<Rightarrow> real list \<Rightarrow> (state \<times> state) result" where
  "advance odeint x0 theta =
     bind_err (odeint x0 t_one_step theta) (\<lambda>Y.
       bind_err (index_at Y 1) (\<lambda>x1. Inr (x1, x1)))"

definition run_time_varying :: "real odeint \<Rightarrow> int \<Rightarrow> state \<Rightarrow> param list \<Rightarrow> state list result" where
  "run_time_varying odeint T x0 theta =
     bind_err (sequence_err (map (\<lambda>a. broadcast_to a (T - 1)) theta)) (\<lambda>theta'.
       bind_err (scan (advance odeint) x0 theta' (map (\<lambda>a. 0) theta') (T - 1)) (\<lambda>(c, X).
         vstack x0 X))"

definition run :: "real odeint \<Rightarrow> int \<Rightarrow> state \<Rightarrow> param list \<Rightarrow> state list result" where
  "run odeint T x0 theta =
     (let is_scalar = map (\<lambda>a. ndim a = 0) theta in
      if list_all (\<lambda>b. b) is_scalar then run_static odeint T x0 (scalar_values theta)
      else run_time_varying odeint T x0 theta)"

subsection \<open>Reference descriptions of the time-varying path\<close>

text \<open>
  Chaining single unit steps by hand: each step integrates over the local grid
  \<open>[0, 1]\<close> with its own slice of the parameters, starts from the previous step's final
  state and records its own final state.
\<close>

fun chain_unit_steps :: "real odeint \<Rightarrow> state \<Rightarrow> real list list \<Rightarrow> state list result" where
  "chain_unit_steps odeint x [] = Inr []"
| "chain_unit_steps odeint x (th # ths) =
     (case odeint x [0, 1] th of
        Inl e \<Rightarrow> Inl e
      | Inr Y \<Rightarrow>
          (if length Y < 2 then Inl IndexError
           else case chain_unit_steps odeint (Y ! 1) ths of
             Inl e \<Rightarrow> Inl e
           | Inr X \<Rightarrow> Inr ((Y ! 1) # X)))"

text \<open>The \<open>k\<close>-th slice of a tuple of per-step sequences.\<close>

fun entry_at :: "nat \<Rightarrow> param \<Rightarrow> real" where
  "entry_at k (Scalar r) = r"
| "entry_at k (Vec v) = v ! k"

definition theta_slice :: "param list \<Rightarrow> nat \<Rightarrow> real list" where
  "theta_slice theta k = map (entry_at k) theta"

fun is_per_step :: "int \<Rightarrow> param \<Rightarrow> bool" where
  "is_per_step T (Scalar r) = False"
| "is_per_step T (Vec v) = (int (length v) = T - 1)"

text \<open>A scalar entry repeated once per step.\<close>

fun repeat_scalar :: "int \<Rightarrow> param \<Rightarrow> param" where
  "repeat_scalar T (Scalar r) = Vec (replicate (nat (T - 1)) r)"
| "repeat_scalar T (Vec v) = Vec v"

fun is_scalar_or_per_step :: "int \<Rightarrow> param \<Rightarrow> bool" where
  "is_scalar_or_per_step T (Scalar r) = True"
| "is_scalar_or_per_step T (Vec v) = (int (length v) = T - 1)"

subsection \<open>A fixed-step integrator\<close>

text \<open>
  Explicit Euler with one step per interval of the query grid: a small integrator with
  the interface of \<open>build_odeint\<close>, used for the worked instances.
\<close>

fun euler_steps :: "'a deriv \<Rightarrow> state \<Rightarrow> real \<Rightarrow> real list \<Rightarrow> 'a list \<Rightarrow> state list result" where
  "euler_steps f x t [] args = Inr []"
| "euler_steps f x t (t' # ts) args =
     bind_err (f x t args) (\<lambda>dx.
       bind_err (euler_steps f (map2 (\<lambda>xi di. xi + (t' - t) * di) x dx) t' ts args) (\<lambda>X.
         Inr (map2 (\<lambda>xi di. xi + (t' - t) * di) x dx # X)))"

definition euler_odeint :: "'a deriv \<Rightarrow> 'a odeint" where
  "euler_odeint f x0 ts args =
     (case ts of
        [] \<Rightarrow> Inl IndexError
      | t0 # rest \<Rightarrow> bind_err (euler_steps f x0 t0 rest args) (\<lambda>X. Inr (x0 # X)))"

text \<open>What \<open>np.broadcast_to\<close> makes of an entry that is a scalar or already per-step.\<close>

fun broadcast_values :: "int \<Rightarrow> param \<Rightarrow> real list" where
  "broadcast_values T (Scalar r) = replicate (nat (T - 1)) r"
| "broadcast_values T (Vec v) = v"

section \<open>The simulation engine: batches\<close>

subsection \<open>The vectorized derivative and the batch integrator\<close>

text \<open>
  A two-dimensional array is a list of rows of one length; \<open>ncols\<close> is that length (an
  array without rows is taken to have no columns).
\<close>

definition ncols :: "'a list list \<Rightarrow> nat" where
  "ncols m = (case m of [] \<Rightarrow> 0 | r # rs \<Rightarrow> length r)"

text \<open>
  \<open>x.reshape(batch_sz, -1)\<close> of a flat array: \<open>jax.numpy\<close> raises \<open>TypeError\<close> when the
  size is not a multiple of \<open>batch_sz\<close>. An empty batch leaves the row length
  undetermined and is recorded as an error as well.
\<close>

definition reshape_rows :: "nat \<Rightarrow> 'a list \<Rightarrow> 'a list list result" where
  "reshape_rows b x =
     (if b = 0 \<or> length x mod b \<noteq> 0 then Inl TypeError
      else Inr (map (\<lambda>i. take (length x div b) (drop (i * (length x div b)) x)) [0..<b]))"

text \<open>
  \<open>jax.vmap(dx_dt, in_axes=(0, None) + (0,) * len(args))(x, t, *args)\<close>: the mapped
  axes must all have the size of the leading axis of \<open>x\<close>; instance \<open>i\<close> is evaluated on
  row \<open>i\<close> of \<open>x\<close>, the shared \<open>t\<close> and the \<open>i\<close>-th value of every argument.
\<close>

definition vmap_dx_dt :: "real deriv \<Rightarrow> state list \<Rightarrow> real \<Rightarrow> real list list \<Rightarrow> state list result" where
  "vmap_dx_dt dx_dt x t args =
     (if \<not> list_all (\<lambda>a. length a = length x) args then Inl ValueError
      else sequence_err (map (\<lambda>i. dx_dt (x ! i) t (map (\<lambda>a. a ! i) args)) [0..<length x]))"

definition dx_dt_batch :: "real deriv \<Rightarrow> (real list) deriv" where
  "dx_dt_batch dx_dt x t args =
     (case args of
        [] \<Rightarrow> Inl IndexError
      | a0 # as \<Rightarrow>
          (let batch_sz = length a0 in
           bind_err (reshape_rows batch_sz x) (\<lambda>x'.
             bind_err (vmap_dx_dt dx_dt x' t args) (\<lambda>d. Inr (concat d)))))"

text \<open>\<open>x.reshape(n, b, d)\<close> of an array of \<open>n\<close> flat rows; the total size must be
  unchanged (\<open>TypeError\<close> in \<open>jax.numpy\<close>).\<close>

definition reshape3 :: "nat \<Rightarrow> nat \<Rightarrow> nat \<Rightarrow> 'a list list \<Rightarrow> 'a list list list result" where
  "reshape3 n b d x =
     (if length (concat x) \<noteq> n * b * d then Inl TypeError
      else Inr (map (\<lambda>k. map (\<lambda>i. take d (drop ((k * b + i) * d) (concat x))) [0..<b]) [0..<n]))"

text \<open>\<open>swapaxes(0, 1)\<close> of an array whose second axis has size \<open>b\<close>.\<close>

definition swapaxes01 :: "nat \<Rightarrow> 'a list list \<Rightarrow> 'a list list result" where
  "swapaxes01 b X =
     (if \<not> list_all (\<lambda>Xk. length Xk = b) X then Inl ValueError
      else Inr (map (\<lambda>i. map (\<lambda>Xk. Xk ! i) X) [0..<b]))"

type_synonym batch_odeint = "state list \<Rightarrow> real list \<Rightarrow> real list list \<Rightarrow> state list list result"

definition odeint_batch :: "(real list) odeint \<Rightarrow> batch_odeint" where
  "odeint_batch ode x0 t args =
     (let batch_sz = length x0; d = ncols x0 in
      bind_err (ode (concat x0) t args) (\<lambda>x.
        bind_err (reshape3 (length t) batch_sz d x) (swapaxes01 batch_sz)))"

definition build_odeint_batch :: "((real list) deriv \<Rightarrow> (real list) odeint) \<Rightarrow> real deriv \<Rightarrow> batch_odeint" where
  "build_odeint_batch build_odeint dx_dt = odeint_batch (build_odeint (dx_dt_batch dx_dt))"

subsection \<open>\<open>run_batch\<close>\<close>

text \<open>
  An entry of the parameter tuple of \<open>run_batch\<close> has shape \<open>(batch_sz,)\<close> or
  \<open>(batch_sz, T-1)\<close>: one value, or one row of per-step values, for each instance.
\<close>

datatype bparam = BVec "real list" | BMat "real list list"

text \<open>
  \<open>np.broadcast_to(a.T, (T-1, batch_sz))\<close>. The shapes are compared first: each axis of
  \<open>a.T\<close> must have the size asked for or size 1 (and the rows of a matrix one length),
  or the call raises \<open>ValueError\<close>. The entries are then laid out by
  \<open>broadcast_in_dim\<close>, which raises \<open>TypeError\<close> for a negative \<open>T - 1\<close>; entry \<open>(k, i)\<close>
  of the result reads \<open>a\<close> at instance \<open>i\<close> and step \<open>k\<close>, or at index 0 along an axis of
  size 1.
\<close>

definition expand_and_transpose :: "int \<Rightarrow> nat \<Rightarrow> bparam \<Rightarrow> real list list result" where
  "expand_and_transpose T batch_sz a =
     (case a of
        BVec v \<Rightarrow>
          if length v = batch_sz \<or> length v = 1
          then (if T - 1 < 0 then Inl TypeError
                else Inr (replicate (nat (T - 1))
                       (map (\<lambda>i. v ! (if length v = batch_sz then i else 0)) [0..<batch_sz])))
          else Inl ValueError
      | BMat m \<Rightarrow>
          if list_all (\<lambda>r. length r = ncols m) m
             \<and> (int (ncols m) = T - 1 \<or> ncols m = 1)
             \<and> (length m = batch_sz \<or> length m = 1)
          then (if T - 1 < 0 then Inl TypeError
                else Inr (map (\<lambda>k. map (\<lambda>i. m ! (if length m = batch_sz then i else 0)
                                              ! (if int (ncols m) = T - 1 then k else 0))
                                     [0..<batch_sz])
                            [0..<nat (T - 1)]))
          else Inl ValueError)"

text \<open>\<open>Y[:, -1, :]\<close>: the last time slice of every instance.\<close>

definition last_time_slice :: "state list list \<Rightarrow> state list result" where
  "last_time_slice Y =
     (if list_all (\<lambda>tr. tr \<noteq> []) Y then Inr (map last Y) else Inl IndexError)"

definition advance_batch :: "batch_odeint \<Rightarrow> state list \<Rightarrow> real list list \<Rightarrow> (state list \<times> state list) result" where
  "advance_batch batch_odeint x0 theta =
     bind_err (batch_odeint x0 t_one_step theta) (\<lambda>Y.
       bind_err (last_time_slice Y) (\<lambda>x1. Inr (x1, x1)))"

text \<open>\<open>np.concatenate((x0[:,None,:], X), axis=1)\<close>: the arrays must agree on the batch
  axis and on the state axis.\<close>

definition concatenate_time :: "state list \<Rightarrow> state list list \<Rightarrow> state list list result" where
  "concatenate_time x0 X =
     (if length X = length x0
         \<and> list_all (\<lambda>i. list_all (\<lambda>s. length s = length (x0 ! i)) (X ! i)) [0..<length x0]
      then Inr (map (\<lambda>i. (x0 ! i) # (X ! i)) [0..<length x0])
      else Inl ValueError)"

definition run_batch :: "batch_odeint \<Rightarrow> int \<Rightarrow> state list \<Rightarrow> bparam list \<Rightarrow> state list list result" where
  "run_batch batch_odeint T x0 theta =
     (let batch_sz = length x0 in
      bind_err (sequence_err (map (expand_and_transpose T batch_sz) theta)) (\<lambda>theta'.
        bind_err (scan (advance_batch batch_odeint) x0 theta'
                    (map (\<lambda>a. replicate batch_sz 0) theta') (T - 1)) (\<lambda>(c, X).
          bind_err (swapaxes01 batch_sz X) (concatenate_time x0))))"

subsection \<open>Reference descriptions of the batch fold\<close>

text \<open>The values of one entry at step \<open>k\<close>, one per instance.\<close>

fun step_values :: "nat \<Rightarrow> bparam \<Rightarrow> real list" where
  "step_values k (BVec v) = v"
| "step_values k (BMat m) = map (\<lambda>row. row ! k) m"

definition step_params :: "bparam list \<Rightarrow> nat \<Rightarrow> real list list" where
  "step_params theta k = map (step_values k) theta"

fun has_batch_shape :: "int \<Rightarrow> nat \<Rightarrow> bparam \<Rightarrow> bool" where
  "has_batch_shape T b (BVec v) = (length v = b)"
| "has_batch_shape T b (BMat m) = (length m = b \<and> list_all (\<lambda>r. int (length r) = T - 1) m)"

text \<open>
  The fold of batch steps: each step integrates the whole batch over \<open>[0, 1]\<close> with the
  step's parameters, keeps the final time slice as the carried batch state and records it.
\<close>

fun fold_batch_steps :: "batch_odeint \<Rightarrow> state list \<Rightarrow> real list list list \<Rightarrow> state list list result" where
  "fold_batch_steps batch_odeint x [] = Inr []"
| "fold_batch_steps batch_odeint x (th # ths) =
     (case batch_odeint x [0, 1] th of
        Inl e \<Rightarrow> Inl e
      | Inr Y \<Rightarrow>
          (if list_ex (\<lambda>tr. tr = []) Y then Inl IndexError
           else case fold_batch_steps batch_odeint (map last Y) ths of
             Inl e \<Rightarrow> Inl e
           | Inr X \<Rightarrow> Inr (map last Y # X)))"

text \<open>
  The assembled output: instance \<open>i\<close> has \<open>x0[i]\<close> at time 0, followed by its state after
  each step, in order. The recorded batch states must each hold one state per instance, of
  that instance's dimension.
\<close>

definition assemble :: "state list \<Rightarrow> state list list \<Rightarrow> state list list result" where
  "assemble x0 Xs =
     (if list_all (\<lambda>Xk. length Xk = length x0
                     \<and> list_all (\<lambda>i. length (Xk ! i) = length (x0 ! i)) [0..<length x0]) Xs
      then Inr (map (\<lambda>i. (x0 ! i) # map (\<lambda>Xk. Xk ! i) Xs) [0..<length x0])
      else Inl ValueError)"

subsection \<open>Shapes that cannot be broadcast\<close>

text \<open>A sequence entry of \<open>run\<close> whose length is neither \<open>T - 1\<close> nor \<open>1\<close>.\<close>

fun wrong_length :: "int \<Rightarrow> param \<Rightarrow> bool" where
  "wrong_length T (Scalar r) = False"
| "wrong_length T (Vec v) = (int (length v) \<noteq> T - 1 \<and> length v \<noteq> 1)"

text \<open>
  An entry of \<open>run_batch\<close> whose batch axis has neither the size of the batch nor size
  \<open>1\<close>, or whose step axis has neither size \<open>T - 1\<close> nor size \<open>1\<close> (or whose rows differ
  in length).
\<close>

fun wrong_batch_shape :: "int \<Rightarrow> nat \<Rightarrow> bparam \<Rightarrow> bool" where
  "wrong_batch_shape T b (BVec v) = (length v \<noteq> b \<and> length v \<noteq> 1)"
| "wrong_batch_shape T b (BMat m) =
     ((length m \<noteq> b \<and> length m \<noteq> 1) \<or> (int (ncols m) \<noteq> T - 1 \<and> ncols m \<noteq> 1)
      \<or> list_ex (\<lambda>r. length r \<noteq> ncols m) m)"

subsection \<open>Reference description of the vectorized derivative\<close>

text \<open>
  The contract of \<open>dx_dt_batch\<close> in its own words: the derivative function is evaluated
  separately on each row of the batch \<open>X\<close>, with the shared time and that row's own value
  of every parameter; the results are stacked and flattened.
\<close>

definition per_instance_dx_dt :: "real deriv \<Rightarrow> state list \<Rightarrow> real \<Rightarrow> real list list \<Rightarrow> state result" where
  "per_instance_dx_dt dx_dt X t args =
     bind_err (sequence_err (map (\<lambda>i. dx_dt (X ! i) t (map (\<lambda>a. a ! i) args)) [0..<length X]))
       (\<lambda>rows. Inr (concat rows))"

section \<open>Properties of the concrete models\<close>

lemma bind_err_simps:
  "bind_err (Inl e) f = Inl e"
  "bind_err (Inr x) f = f x"
  by (simp_all add: bind_err_def)

text \<open>
  Claim C8. For every parameter tuple \<open>(beta, sigma, gamma)\<close> the SEIR growth rate is
  \<open>(-(sigma + gamma) + sqrt ((sigma - gamma)\<^sup>2 + 4 sigma beta)) / 2\<close>: the value is that
  real number whenever the radicand is non-negative, and the non-finite result of the
  square root otherwise. In particular at \<open>(0.5, 0.2, 0.1)\<close> it is
  \<open>(-(0.3) + sqrt (0.01 + 0.4)) / 2\<close>.
\<close>

theorem seir_growth_rate_closed_form:
  "seir_growth_rate [beta, sigma, gamma] =
     (if (sigma - gamma)\<^sup>2 + 4 * sigma * beta < 0 then Inl NonFinite
      else Inr ((- (sigma + gamma) + sqrt ((sigma - gamma)\<^sup>2 + 4 * sigma * beta)) / 2))
   \<and> seir_growth_rate [5 / 10, 2 / 10, 1 / 10] =
       Inr ((- (3 / 10) + sqrt (1 / 100 + 4 / 10)) / 2)"
proof -
  have "((2 / 10 - 1 / 10)\<^sup>2 + 4 * (2 / 10) * (5 / 10) :: real) = 1 / 100 + 4 / 10"
    by (simp add: power2_eq_square)
  then show ?thesis
    by (simp add: seir_growth_rate_def np_sqrt_def bind_err_simps)
qed

theorem seir_growth_rate_closed_form_witness:
  "seir_growth_rate [3 / 10, 2 / 10, 1 / 10] = Inr (1 / 10)"
proof -
  have r: "((2 / 10 - 1 / 10)\<^sup>2 + 4 * (2 / 10) * (3 / 10) :: real) = (1 / 2)\<^sup>2"
    by (simp add: power2_eq_square)
  have "sqrt ((2 / 10 - 1 / 10)\<^sup>2 + 4 * (2 / 10) * (3 / 10)) = (1 / 2 :: real)"
    unfolding r by (rule real_sqrt_unique) simp_all
  moreover have "\<not> ((2 / 10 - 1 / 10)\<^sup>2 + 4 * (2 / 10) * (3 / 10) :: real) < 0"
    unfolding r by simp
  ultimately show ?thesis
    using seir_growth_rate_closed_form [of "3 / 10" "2 / 10" "1 / 10"]
    by simp
qed

text \<open>
  Claim C9. For a state with non-zero total population \<open>N\<close> and any real parameters, the
  derivatives of the non-cumulative compartments sum to zero: \<open>dS + dI + dR = 0\<close> for
  SIR (with \<open>N = S + I + R\<close>) and \<open>dS + dE + dI + dR = 0\<close> for SEIR (with
  \<open>N = S + E + I + R\<close>).
\<close>

theorem dx_dt_conserves_population:
  "(S + I + R \<noteq> 0 \<longrightarrow>
      (\<exists>dS dI dR dC. sir_dx_dt [S, I, R, C] t [beta, gamma] = Inr [dS, dI, dR, dC]
         \<and> dS + dI + dR = 0))
   \<and> (S' + E' + I' + R' \<noteq> 0 \<longrightarrow>
      (\<exists>dS dE dI dR dC.
         seir_dx_dt [S', E', I', R', C'] t' [beta', sigma', gamma'] = Inr [dS, dE, dI, dR, dC]
         \<and> dS + dE + dI + dR = 0))"
  by (simp add: sir_dx_dt_def seir_dx_dt_def np_div_def bind_err_simps Let_def)

theorem dx_dt_conserves_population_witness:
  "(990 + 10 + 0 \<noteq> (0::real)
     \<and> sir_dx_dt [990, 10, 0, 10] 0 [3 / 10, 1 / 10] = Inr [- 297 / 100, 197 / 100, 1, 297 / 100]
     \<and> (- 297 / 100 + 197 / 100 + 1 = (0::real)))
   \<and> (990 + 0 + 10 + 0 \<noteq> (0::real)
     \<and> seir_dx_dt [990, 0, 10, 0, 10] 0 [5 / 10, 2 / 10, 1 / 10] = Inr [- 495 / 100, 495 / 100, - 1, 1, 0]
     \<and> (- 495 / 100 + 495 / 100 + (- 1) + 1 = (0::real)))"
  using dx_dt_conserves_population [of 990 10 0 10 0 "3 / 10" "1 / 10" 990 0 10 0 10 0 "5 / 10" "2 / 10" "1 / 10"]
  by (simp add: sir_dx_dt_def seir_dx_dt_def np_div_def bind_err_simps Let_def)

section \<open>Properties of single runs\<close>

lemma bind_err_Inr_iff:
  "bind_err m f = Inr y \<longleftrightarrow> (\<exists>x. m = Inr x \<and> f x = Inr y)"
  by (cases m) (simp_all add: bind_err_simps)

lemma scan_loop_advance:
  "scan_loop (advance odeint) x sl =
     bind_err (chain_unit_steps odeint x sl) (\<lambda>X. Inr (last (x # X), X))"
proof (induction sl arbitrary: x)
  case Nil
  show ?case by (simp add: bind_err_simps)
next
  case (Cons th ths)
  show ?case
  proof (cases "odeint x [0, 1] th")
    case (Inl e)
    then have "advance odeint x th = Inl e"
      by (simp add: advance_def t_one_step_def bind_err_simps)
    with Inl show ?thesis by (simp add: bind_err_simps)
  next
    case (Inr Y)
    show ?thesis
    proof (cases "length Y < 2")
      case True
      with Inr have "advance odeint x th = Inl IndexError"
        by (simp add: advance_def t_one_step_def index_at_def bind_err_simps)
      with Inr True show ?thesis by (simp add: bind_err_simps)
    next
      case False
      with Inr have "advance odeint x th = Inr (Y ! 1, Y ! 1)"
        by (simp add: advance_def t_one_step_def index_at_def bind_err_simps)
      with Inr False show ?thesis
        by (cases "chain_unit_steps odeint (Y ! 1) ths")
           (simp_all add: bind_err_simps Cons.IH)
    qed
  qed
qed

lemma length_chain_unit_steps:
  "chain_unit_steps odeint x sl = Inr X \<Longrightarrow> length X = length sl"
  by (induction sl arbitrary: x X) (auto split: sum.splits if_splits)

lemma sequence_err_broadcast:
  "1 \<le> T \<Longrightarrow> list_all (is_scalar_or_per_step T) theta \<Longrightarrow>
   sequence_err (map (\<lambda>a. broadcast_to a (T - 1)) theta) = Inr (map (broadcast_values T) theta)"
proof (induction theta)
  case Nil
  show ?case by simp
next
  case (Cons a as)
  then show ?case by (cases a) (simp_all add: broadcast_to_def bind_err_simps)
qed

lemma length_broadcast_values:
  "1 \<le> T \<Longrightarrow> is_scalar_or_per_step T a \<Longrightarrow> int (length (broadcast_values T a)) = T - 1"
  by (cases a) simp_all

lemma broadcast_values_nth:
  "1 \<le> T \<Longrightarrow> is_scalar_or_per_step T a \<Longrightarrow> k < nat (T - 1) \<Longrightarrow>
   broadcast_values T a ! k = entry_at k a"
  by (cases a) simp_all

lemma slices_broadcast:
  assumes "1 \<le> T" "list_all (is_scalar_or_per_step T) theta"
  shows "slices (map (broadcast_values T) theta) (nat (T - 1)) =
         map (theta_slice theta) [0..<nat (T - 1)]"
  using assms
  by (auto simp: slices_def theta_slice_def list_all_iff broadcast_values_nth)

lemma run_time_varying_chain:
  assumes "2 \<le> T" "list_all (is_scalar_or_per_step T) theta"
  shows "run_time_varying odeint T x0 theta =
         bind_err (chain_unit_steps odeint x0 (map (theta_slice theta) [0..<nat (T - 1)])) (vstack x0)"
proof -
  have T1: "1 \<le> T" using assms(1) by simp
  have len: "list_all (\<lambda>a. int (length a) = T - 1) (map (broadcast_values T) theta)"
    using T1 assms(2) by (auto simp: list_all_iff length_broadcast_values)
  have sc: "scan (advance odeint) x0 (map (broadcast_values T) theta) av (T - 1) =
        scan_loop (advance odeint) x0 (map (theta_slice theta) [0..<nat (T - 1)])" for av
    using assms(1) len by (simp add: scan_def slices_broadcast [OF T1 assms(2)])
  show ?thesis
    unfolding run_time_varying_def sequence_err_broadcast [OF T1 assms(2)] bind_err_simps sc
      scan_loop_advance
    by (cases "chain_unit_steps odeint x0 (map (theta_slice theta) [0..<nat (T - 1)])")
       (simp_all add: bind_err_simps)
qed

lemma per_step_imp: "is_per_step T a \<Longrightarrow> is_scalar_or_per_step T a"
  by (cases a) simp_all

lemma not_all_scalar:
  "theta \<noteq> [] \<Longrightarrow> list_all (is_per_step T) theta \<Longrightarrow>
   \<not> list_all (\<lambda>b. b) (map (\<lambda>a. ndim a = 0) theta)"
proof (cases theta)
  case Nil
  assume "theta \<noteq> []"
  with Nil show ?thesis by simp
next
  case (Cons a as)
  assume "list_all (is_per_step T) theta"
  with Cons show ?thesis by (cases a) simp_all
qed

text \<open>
  Claim C1. For \<open>T \<ge> 2\<close> and a parameter tuple whose entries are per-step sequences
  (of length \<open>T - 1\<close>), \<open>run\<close> is the chain of \<open>T - 1\<close> unit-step integrations over the
  local grid \<open>[0, 1]\<close>, step \<open>k\<close> using the \<open>k\<close>-th slice of \<open>theta\<close> and starting from the
  final state of step \<open>k - 1\<close>; the trajectory returned is \<open>x0\<close> followed by the
  \<open>T - 1\<close> recorded states in order.
\<close>

theorem run_time_varying_chains:
  assumes "2 \<le> T" and "theta \<noteq> []" and "list_all (is_per_step T) theta"
  shows "run odeint T x0 theta =
           bind_err (chain_unit_steps odeint x0 (map (theta_slice theta) [0..<nat (T - 1)]))
             (vstack x0)
         \<and> (\<forall>X. run odeint T x0 theta = Inr X \<longrightarrow>
               (\<exists>Xs. chain_unit_steps odeint x0 (map (theta_slice theta) [0..<nat (T - 1)]) = Inr Xs
                  \<and> X = x0 # Xs \<and> int (length Xs) = T - 1))"
proof -
  let ?sl = "map (theta_slice theta) [0..<nat (T - 1)]"
  have T1: "1 \<le> T" using assms(1) by simp
  have wf: "list_all (is_scalar_or_per_step T) theta"
    using assms(3) by (auto simp: list_all_iff per_step_imp)
  have eq: "run odeint T x0 theta = bind_err (chain_unit_steps odeint x0 ?sl) (vstack x0)"
    using not_all_scalar [OF assms(2,3)] run_time_varying_chain [OF assms(1) wf]
    by (simp add: run_def)
  have "\<exists>Xs. chain_unit_steps odeint x0 ?sl = Inr Xs \<and> X = x0 # Xs \<and> int (length Xs) = T - 1"
    if "run odeint T x0 theta = Inr X" for X
  proof -
    from that eq obtain Xs where c: "chain_unit_steps odeint x0 ?sl = Inr Xs"
      and v: "vstack x0 Xs = Inr X"
      by (auto simp: bind_err_Inr_iff)
    from v have "X = x0 # Xs" by (auto simp: vstack_def split: if_splits)
    moreover from c have "length Xs = nat (T - 1)"
      by (auto dest: length_chain_unit_steps)
    ultimately show ?thesis using c T1 by auto
  qed
  with eq show ?thesis by blast
qed

theorem run_time_varying_chains_witness:
  "(2::int) \<le> 3 \<and> [Vec [1 / 5, 1 / 5], Vec [1 / 10, 1 / 10]] \<noteq> []
   \<and> list_all (is_per_step 3) [Vec [1 / 5, 1 / 5], Vec [1 / 10, 1 / 10]]
   \<and> chain_unit_steps (euler_odeint sir_dx_dt) [90, 10, 0, 10]
        (map (theta_slice [Vec [1 / 5, 1 / 5], Vec [1 / 10, 1 / 10]]) [0..<nat (3 - 1)])
      = Inr [[441 / 5, 54 / 5, 1, 59 / 5], [539343 / 6250, 72657 / 6250, 52 / 25, 85657 / 6250]]
   \<and> run (euler_odeint sir_dx_dt) 3 [90, 10, 0, 10] [Vec [1 / 5, 1 / 5], Vec [1 / 10, 1 / 10]]
      = Inr [[90, 10, 0, 10], [441 / 5, 54 / 5, 1, 59 / 5],
             [539343 / 6250, 72657 / 6250, 52 / 25, 85657 / 6250]]"
proof -
  have sl: "map (theta_slice [Vec [1 / 5, 1 / 5], Vec [1 / 10, 1 / 10]]) [0..<nat (3 - 1)]
      = [[1 / 5, 1 / 10], [1 / 5, 1 / 10]]"
    by (simp add: theta_slice_def eval_nat_numeral)
  have e1: "euler_odeint sir_dx_dt [90, 10, 0, 10] [0, 1] [1 / 5, 1 / 10]
      = Inr [[90, 10, 0, 10], [441 / 5, 54 / 5, 1, 59 / 5]]"
    by (simp add: euler_odeint_def sir_dx_dt_def np_div_def bind_err_simps Let_def)
  have e2: "euler_odeint sir_dx_dt [441 / 5, 54 / 5, 1, 59 / 5] [0, 1] [1 / 5, 1 / 10]
      = Inr [[441 / 5, 54 / 5, 1, 59 / 5],
             [539343 / 6250, 72657 / 6250, 52 / 25, 85657 / 6250]]"
    by (simp add: euler_odeint_def sir_dx_dt_def np_div_def bind_err_simps Let_def)
  have c: "chain_unit_steps (euler_odeint sir_dx_dt) [90, 10, 0, 10]
        (map (theta_slice [Vec [1 / 5, 1 / 5], Vec [1 / 10, 1 / 10]]) [0..<nat (3 - 1)])
      = Inr [[441 / 5, 54 / 5, 1, 59 / 5], [539343 / 6250, 72657 / 6250, 52 / 25, 85657 / 6250]]"
    unfolding sl by (simp add: e1 e2)
  have v: "vstack [90, 10, 0, 10]
        [[441 / 5, 54 / 5, 1, 59 / 5], [539343 / 6250, 72657 / 6250, 52 / 25, 85657 / 6250]]
      = Inr [[90, 10, 0, 10], [441 / 5, 54 / 5, 1, 59 / 5],
             [539343 / 6250, 72657 / 6250, 52 / 25, 85657 / 6250]]"
    by (simp add: vstack_def)
  have t: "(2::int) \<le> 3"
    by simp
  have n: "[Vec [1 / 5, 1 / 5], Vec [1 / 10, 1 / 10]] \<noteq> []"
    by simp
  have p: "list_all (is_per_step 3) [Vec [1 / 5, 1 / 5], Vec [1 / 10, 1 / 10]]"
    by simp
  have "run (euler_odeint sir_dx_dt) 3 [90, 10, 0, 10] [Vec [1 / 5, 1 / 5], Vec [1 / 10, 1 / 10]]
      = Inr [[90, 10, 0, 10], [441 / 5, 54 / 5, 1, 59 / 5],
             [539343 / 6250, 72657 / 6250, 52 / 25, 85657 / 6250]]"
    unfolding run_time_varying_chains [OF t n p, of "euler_odeint sir_dx_dt" "[90, 10, 0, 10]",
        THEN conjunct1] c bind_err_simps v ..
  with t n p c show ?thesis by (simp only: simp_thms)
qed

lemma all_scalar_map: "list_all (\<lambda>b. b) (map (\<lambda>a. ndim a = 0) (map Scalar rs))"
  by (induction rs) simp_all

lemma scalar_values_map: "scalar_values (map Scalar rs) = rs"
  by (induction rs) simp_all

lemma length_arange: "1 \<le> T \<Longrightarrow> int (length (arange T)) = T"
  by (simp add: arange_def)

lemma arange_nth: "k < nat T \<Longrightarrow> arange T ! k = real k"
  by (simp add: arange_def)

text \<open>
  Claim C3. For \<open>T \<ge> 1\<close> and a parameter tuple whose entries are all scalars, \<open>run\<close>
  takes the constant-parameter path: it is one call of the integrator on the grid of the
  \<open>T\<close> integer time points \<open>0, 1, ..., T-1\<close> with the parameters as given, and the
  integrator's trajectory is returned as it is.
\<close>

theorem run_static_single_call:
  assumes "1 \<le> T"
  shows "run odeint T x0 (map Scalar rs) = odeint x0 (arange T) rs
         \<and> int (length (arange T)) = T
         \<and> (\<forall>k < nat T. arange T ! k = real k)"
proof -
  have "run odeint T x0 (map Scalar rs) = run_static odeint T x0 (scalar_values (map Scalar rs))"
    unfolding run_def Let_def using all_scalar_map [of rs] by (simp only: if_True)
  then have "run odeint T x0 (map Scalar rs) = odeint x0 (arange T) rs"
    by (simp add: run_static_def scalar_values_map)
  with assms show ?thesis
    by (simp add: length_arange arange_nth)
qed

theorem run_static_single_call_witness:
  "(1::int) \<le> 3
   \<and> run (euler_odeint sir_dx_dt) 3 [90, 10, 0, 10] (map Scalar [2 / 10, 1 / 10])
      = euler_odeint sir_dx_dt [90, 10, 0, 10] [0, 1, 2] [2 / 10, 1 / 10]
   \<and> euler_odeint sir_dx_dt [90, 10, 0, 10] [0, 1, 2] [2 / 10, 1 / 10]
      = Inr [[90, 10, 0, 10], [441 / 5, 54 / 5, 1, 59 / 5],
             [539343 / 6250, 72657 / 6250, 52 / 25, 85657 / 6250]]"
proof -
  have a: "arange 3 = [0, 1, 2]"
    by (simp add: arange_def upto.simps)
  have e: "euler_odeint sir_dx_dt [90, 10, 0, 10] [0, 1, 2] [2 / 10, 1 / 10]
      = Inr [[90, 10, 0, 10], [441 / 5, 54 / 5, 1, 59 / 5],
             [539343 / 6250, 72657 / 6250, 52 / 25, 85657 / 6250]]"
    by (simp add: euler_odeint_def sir_dx_dt_def np_div_def bind_err_simps Let_def)
  show ?thesis
    using run_static_single_call [of 3 "euler_odeint sir_dx_dt" "[90, 10, 0, 10]" "[2 / 10, 1 / 10]"]
    unfolding a e by simp
qed

section \<open>Boundary cases and mixed parameter tuples\<close>

lemma all_scalar_iff:
  "list_all (\<lambda>b. b) (map (\<lambda>a. ndim a = 0) theta) \<longleftrightarrow> list_all (\<lambda>a. ndim a = 0) theta"
  by (induction theta) simp_all

lemma run_not_all_scalar:
  "\<not> list_all (\<lambda>a. ndim a = 0) theta \<Longrightarrow>
   run odeint T x0 theta = run_time_varying odeint T x0 theta"
  by (simp add: run_def all_scalar_iff)

lemma run_all_scalar:
  "list_all (\<lambda>a. ndim a = 0) theta \<Longrightarrow>
   run odeint T x0 theta = odeint x0 (arange T) (scalar_values theta)"
  by (simp add: run_def all_scalar_iff run_static_def)



lemma ex_vec_not_all_scalar:
  "list_ex (\<lambda>a. ndim a = 1) theta \<Longrightarrow> \<not> list_all (\<lambda>a. ndim a = 0) theta"
  by (induction theta) auto

lemma repeat_scalar_wf:
  "1 \<le> T \<Longrightarrow> is_scalar_or_per_step T a \<Longrightarrow> is_scalar_or_per_step T (repeat_scalar T a)"
  by (cases a) simp_all

lemma repeat_scalar_ndim: "ndim (repeat_scalar T a) = 1"
  by (cases a) simp_all

lemma entry_at_repeat_scalar:
  "is_scalar_or_per_step T a \<Longrightarrow> k < nat (T - 1) \<Longrightarrow>
   entry_at k (repeat_scalar T a) = entry_at k a"
  by (cases a) simp_all

lemma theta_slice_repeat_scalar:
  "list_all (is_scalar_or_per_step T) theta \<Longrightarrow> k < nat (T - 1) \<Longrightarrow>
   theta_slice (map (repeat_scalar T) theta) k = theta_slice theta k"
  by (simp add: theta_slice_def list_all_iff entry_at_repeat_scalar)

lemma vstack_ok:
  "list_all (\<lambda>r. length r = length x0) Xs \<Longrightarrow> vstack x0 Xs = Inr (x0 # Xs)"
  by (simp add: vstack_def)

text \<open>
  Claim C10. For \<open>T \<ge> 2\<close> and a tuple that mixes scalars with sequences of length
  \<open>T - 1\<close>, \<open>run\<close> takes the time-varying path, and broadcasting raises nothing: every
  scalar is repeated to a sequence of length \<open>T - 1\<close>, so the run is the run on the tuple
  with its scalars written out as constant sequences, step \<open>k\<close> of the chain receiving the
  scalar itself. The call fails only where a unit step of the integrator does (or returns
  a state of another dimension): when the chained steps succeed with states of the
  dimension of \<open>x0\<close>, \<open>run\<close> returns \<open>x0\<close> followed by these states.
\<close>

theorem run_mixed_broadcasts:
  assumes "2 \<le> T" and "list_all (is_scalar_or_per_step T) theta"
    and "list_ex (\<lambda>a. ndim a = 0) theta" and "list_ex (\<lambda>a. ndim a = 1) theta"
  shows "run odeint T x0 theta = run_time_varying odeint T x0 theta
         \<and> sequence_err (map (\<lambda>a. broadcast_to a (T - 1)) theta)
             = Inr (map (broadcast_values T) theta)
         \<and> run odeint T x0 theta = run odeint T x0 (map (repeat_scalar T) theta)
         \<and> run odeint T x0 theta =
             bind_err (chain_unit_steps odeint x0 (map (theta_slice theta) [0..<nat (T - 1)]))
               (vstack x0)
         \<and> (\<forall>Xs. chain_unit_steps odeint x0 (map (theta_slice theta) [0..<nat (T - 1)]) = Inr Xs
                \<and> list_all (\<lambda>r. length r = length x0) Xs
              \<longrightarrow> run odeint T x0 theta = Inr (x0 # Xs))"
proof -
  let ?sl = "map (theta_slice theta) [0..<nat (T - 1)]"
  let ?theta' = "map (repeat_scalar T) theta"
  have T1: "1 \<le> T" using assms(1) by simp
  have ns: "\<not> list_all (\<lambda>a. ndim a = 0) theta"
    by (rule ex_vec_not_all_scalar [OF assms(4)])
  have path: "run odeint T x0 theta = run_time_varying odeint T x0 theta"
    by (rule run_not_all_scalar [OF ns])
  have bc: "sequence_err (map (\<lambda>a. broadcast_to a (T - 1)) theta)
      = Inr (map (broadcast_values T) theta)"
    by (rule sequence_err_broadcast [OF T1 assms(2)])
  have chain: "run odeint T x0 theta = bind_err (chain_unit_steps odeint x0 ?sl) (vstack x0)"
    unfolding path by (rule run_time_varying_chain [OF assms(1,2)])
  have ne: "theta \<noteq> []" using assms(3) by auto
  have ns': "\<not> list_all (\<lambda>a. ndim a = 0) ?theta'"
    using ne by (cases theta) (simp_all add: repeat_scalar_ndim)
  have wf': "list_all (is_scalar_or_per_step T) ?theta'"
    using assms(2) T1 by (simp add: list_all_iff repeat_scalar_wf)
  have sl': "map (theta_slice ?theta') [0..<nat (T - 1)] = ?sl"
    using assms(2) by (simp add: theta_slice_repeat_scalar)
  have "run odeint T x0 ?theta' = run_time_varying odeint T x0 ?theta'"
    by (rule run_not_all_scalar [OF ns'])
  also have "\<dots> = bind_err (chain_unit_steps odeint x0 (map (theta_slice ?theta') [0..<nat (T - 1)]))
      (vstack x0)"
    by (rule run_time_varying_chain [OF assms(1) wf'])
  finally have rep: "run odeint T x0 theta = run odeint T x0 ?theta'"
    unfolding sl' chain by simp
  have ok: "run odeint T x0 theta = Inr (x0 # Xs)"
    if "chain_unit_steps odeint x0 ?sl = Inr Xs \<and> list_all (\<lambda>r. length r = length x0) Xs" for Xs
    unfolding chain using that by (simp add: bind_err_simps vstack_ok)
  from path bc rep chain ok show ?thesis by blast
qed

theorem run_mixed_broadcasts_witness:
  "(2::int) \<le> 3
   \<and> list_all (is_scalar_or_per_step 3) [Scalar (1 / 5), Vec [1 / 10, 1 / 10]]
   \<and> list_ex (\<lambda>a. ndim a = 0) [Scalar (1 / 5), Vec [1 / 10, 1 / 10]]
   \<and> list_ex (\<lambda>a. ndim a = 1) [Scalar (1 / 5), Vec [1 / 10, 1 / 10]]
   \<and> run (euler_odeint sir_dx_dt) 3 [90, 10, 0, 10] [Scalar (1 / 5), Vec [1 / 10, 1 / 10]]
      = run (euler_odeint sir_dx_dt) 3 [90, 10, 0, 10]
          (map (repeat_scalar 3) [Scalar (1 / 5), Vec [1 / 10, 1 / 10]])
   \<and> map (repeat_scalar 3) [Scalar (1 / 5), Vec [1 / 10, 1 / 10]]
      = [Vec [1 / 5, 1 / 5], Vec [1 / 10, 1 / 10]]
   \<and> run (euler_odeint sir_dx_dt) 3 [90, 10, 0, 10] [Scalar (1 / 5), Vec [1 / 10, 1 / 10]]
      = Inr [[90, 10, 0, 10], [441 / 5, 54 / 5, 1, 59 / 5],
             [539343 / 6250, 72657 / 6250, 52 / 25, 85657 / 6250]]"
proof -
  have t: "(2::int) \<le> 3"
    by simp
  have w: "list_all (is_scalar_or_per_step 3) [Scalar (1 / 5), Vec [1 / 10, 1 / 10]]"
    by simp
  have s: "list_ex (\<lambda>a. ndim a = 0) [Scalar (1 / 5), Vec [1 / 10, 1 / 10]]"
    by simp
  have v: "list_ex (\<lambda>a. ndim a = 1) [Scalar (1 / 5), Vec [1 / 10, 1 / 10]]"
    by simp
  have m: "map (repeat_scalar 3) [Scalar (1 / 5), Vec [1 / 10, 1 / 10]]
      = [Vec [1 / 5, 1 / 5], Vec [1 / 10, 1 / 10]]"
    by (simp add: eval_nat_numeral)
  have sl: "map (theta_slice [Scalar (1 / 5), Vec [1 / 10, 1 / 10]]) [0..<nat (3 - 1)]
      = [[1 / 5, 1 / 10], [1 / 5, 1 / 10]]"
    by (simp add: theta_slice_def eval_nat_numeral)
  have e1: "euler_odeint sir_dx_dt [90, 10, 0, 10] [0, 1] [1 / 5, 1 / 10]
      = Inr [[90, 10, 0, 10], [441 / 5, 54 / 5, 1, 59 / 5]]"
    by (simp add: euler_odeint_def sir_dx_dt_def np_div_def bind_err_simps Let_def)
  have e2: "euler_odeint sir_dx_dt [441 / 5, 54 / 5, 1, 59 / 5] [0, 1] [1 / 5, 1 / 10]
      = Inr [[441 / 5, 54 / 5, 1, 59 / 5],
             [539343 / 6250, 72657 / 6250, 52 / 25, 85657 / 6250]]"
    by (simp add: euler_odeint_def sir_dx_dt_def np_div_def bind_err_simps Let_def)
  have c: "chain_unit_steps (euler_odeint sir_dx_dt) [90, 10, 0, 10]
        (map (theta_slice [Scalar (1 / 5), Vec [1 / 10, 1 / 10]]) [0..<nat (3 - 1)])
      = Inr [[441 / 5, 54 / 5, 1, 59 / 5], [539343 / 6250, 72657 / 6250, 52 / 25, 85657 / 6250]]
      \<and> list_all (\<lambda>r. length r = length [90, 10, 0, 10 :: real])
          [[441 / 5, 54 / 5, 1, 59 / 5], [539343 / 6250, 72657 / 6250, 52 / 25, 85657 / 6250]]"
    unfolding sl by (simp add: e1 e2)
  note th = run_mixed_broadcasts [OF t w s v, of "euler_odeint sir_dx_dt" "[90, 10, 0, 10]"]
  have r: "run (euler_odeint sir_dx_dt) 3 [90, 10, 0, 10] [Scalar (1 / 5), Vec [1 / 10, 1 / 10]]
      = Inr [[90, 10, 0, 10], [441 / 5, 54 / 5, 1, 59 / 5],
             [539343 / 6250, 72657 / 6250, 52 / 25, 85657 / 6250]]"
    using th [THEN conjunct2, THEN conjunct2, THEN conjunct2, THEN conjunct2, THEN spec, THEN mp, OF c] .
  have q: "run (euler_odeint sir_dx_dt) 3 [90, 10, 0, 10] [Scalar (1 / 5), Vec [1 / 10, 1 / 10]]
      = run (euler_odeint sir_dx_dt) 3 [90, 10, 0, 10]
          (map (repeat_scalar 3) [Scalar (1 / 5), Vec [1 / 10, 1 / 10]])"
    using th [THEN conjunct2, THEN conjunct2, THEN conjunct1] .
  from t w s v q m r show ?thesis
    by (simp only: simp_thms)
qed

section \<open>Runs of a single time point\<close>

lemma sequence_err_fails:
  "list_ex (\<lambda>a. f a = Inl e) xs \<Longrightarrow> list_all (\<lambda>a. \<forall>e'. f a = Inl e' \<longrightarrow> e' = e) xs \<Longrightarrow>
   sequence_err (map f xs) = Inl e"
proof (induction xs)
  case Nil
  then show ?case by simp
next
  case (Cons a as)
  show ?case
  proof (cases "f a")
    case (Inl e')
    with Cons.prems(2) have "e' = e" by simp
    with Inl show ?thesis by (simp add: bind_err_simps)
  next
    case (Inr y)
    with Cons.prems have "sequence_err (map f as) = Inl e"
      by (intro Cons.IH) simp_all
    with Inr show ?thesis by (simp add: bind_err_simps)
  qed
qed

lemma broadcast_to_error:
  "0 \<le> n \<Longrightarrow> broadcast_to a n = Inl e' \<Longrightarrow> e' = ValueError"
  by (cases a) (auto simp: broadcast_to_def split: if_splits)

lemma broadcast_to_wrong_length:
  "wrong_length T a \<Longrightarrow> broadcast_to a (T - 1) = Inl ValueError"
  by (cases a) (auto simp: broadcast_to_def)

lemma run_time_varying_wrong_length:
  assumes "1 \<le> T" and "list_ex (wrong_length T) theta"
  shows "run_time_varying odeint T x0 theta = Inl ValueError"
proof -
  have ex: "list_ex (\<lambda>a. broadcast_to a (T - 1) = Inl ValueError) theta"
    using assms(2) unfolding list_ex_iff using broadcast_to_wrong_length by blast
  have al: "list_all (\<lambda>a. \<forall>e'. broadcast_to a (T - 1) = Inl e' \<longrightarrow> e' = ValueError) theta"
    using assms(1) by (auto simp: list_all_iff dest: broadcast_to_error [rotated])
  show ?thesis
    unfolding run_time_varying_def sequence_err_fails [OF ex al] bind_err_simps ..
qed









section \<open>Arguments outside the documented shapes\<close>

lemma wrong_length_not_all_scalar:
  "list_ex (wrong_length T) theta \<Longrightarrow> \<not> list_all (\<lambda>a. ndim a = 0) theta"
proof (induction theta)
  case Nil
  then show ?case by simp
next
  case (Cons a as)
  then show ?case by (cases a) auto
qed

lemma not_all_scalar_ex: "\<not> list_all (\<lambda>a. ndim a = 0) theta \<Longrightarrow> theta \<noteq> []"
  by auto

lemma broadcast_to_negative:
  "T < 1 \<Longrightarrow> broadcast_to a (T - 1) = Inl (if wrong_length T a then ValueError else TypeError)"
  by (cases a) (auto simp: broadcast_to_def)

lemma run_time_varying_negative:
  "T < 1 \<Longrightarrow> theta \<noteq> [] \<Longrightarrow>
   run_time_varying odeint T x0 theta
     = Inl (if wrong_length T (hd theta) then ValueError else TypeError)"
  by (cases theta) (simp_all add: run_time_varying_def broadcast_to_negative bind_err_simps)

lemma broadcast_to_singleton: "broadcast_to (Vec [r]) n = broadcast_to (Scalar r) n"
proof (cases "n = 1")
  case True
  then show ?thesis by (simp add: broadcast_to_def)
next
  case False
  then show ?thesis by (simp add: broadcast_to_def)
qed

lemma run_time_varying_singleton:
  "run_time_varying odeint T x0 (pre @ Vec [r] # post)
     = run_time_varying odeint T x0 (pre @ Scalar r # post)"
  by (simp add: run_time_varying_def broadcast_to_singleton)

lemma singleton_not_all_scalar: "\<not> list_all (\<lambda>a. ndim a = 0) (pre @ Vec v # post)"
  by simp

lemma expand_and_transpose_error:
  "1 \<le> T \<Longrightarrow> expand_and_transpose T b a = Inl e' \<Longrightarrow> e' = ValueError"
  by (cases a) (auto simp: expand_and_transpose_def split: if_splits)

lemma expand_and_transpose_wrong:
  "wrong_batch_shape T b a \<Longrightarrow> expand_and_transpose T b a = Inl ValueError"
  by (cases a) (auto simp: expand_and_transpose_def list_ex_iff list_all_iff)

lemma expand_and_transpose_negative:
  "T < 1 \<Longrightarrow> expand_and_transpose T b a
     = Inl (if wrong_batch_shape T b a then ValueError else TypeError)"
  by (cases a) (auto simp: expand_and_transpose_def list_ex_iff list_all_iff)

lemma run_batch_wrong_shape:
  assumes "1 \<le> T" and "list_ex (wrong_batch_shape T (length x0)) theta"
  shows "run_batch bode T x0 theta = Inl ValueError"
proof -
  have ex: "list_ex (\<lambda>a. expand_and_transpose T (length x0) a = Inl ValueError) theta"
    using assms(2) unfolding list_ex_iff using expand_and_transpose_wrong by blast
  have al: "list_all (\<lambda>a. \<forall>e'. expand_and_transpose T (length x0) a = Inl e' \<longrightarrow> e' = ValueError)
      theta"
    using assms(1) by (auto simp: list_all_iff dest: expand_and_transpose_error [rotated])
  show ?thesis
    unfolding run_batch_def Let_def sequence_err_fails [OF ex al] bind_err_simps ..
qed

lemma run_batch_negative:
  "T < 1 \<Longrightarrow> theta \<noteq> [] \<Longrightarrow>
   run_batch bode T x0 theta
     = Inl (if wrong_batch_shape T (length x0) (hd theta) then ValueError else TypeError)"
  by (cases theta)
     (simp_all add: run_batch_def Let_def expand_and_transpose_negative bind_err_simps)

lemma expand_and_transpose_singleton:
  "expand_and_transpose T b (BVec [r]) = expand_and_transpose T b (BVec (replicate b r))"
proof -
  have "map (\<lambda>i. [r] ! (if Suc 0 = b then i else 0)) [0..<b] = map (\<lambda>i. replicate b r ! i) [0..<b]"
    by (rule map_cong) auto
  then show ?thesis
    by (simp add: expand_and_transpose_def)
qed

lemma run_batch_singleton:
  "run_batch bode T x0 (pre @ BVec [r] # post)
     = run_batch bode T x0 (pre @ BVec (replicate (length x0) r) # post)"
  by (simp add: run_batch_def Let_def expand_and_transpose_singleton)

lemma arange_empty: "T < 1 \<Longrightarrow> arange T = []"
  by (simp add: arange_def)

text \<open>
  Claim C5, as the program has it. A tuple that mixes a scalar with a per-step sequence is
  not an error: \<open>run\<close> accepts it and returns the trajectory.
\<close>

theorem run_accepts_mixed_tuple:
  "run (euler_odeint sir_dx_dt) 2 [90, 10, 0, 10] [Scalar (1 / 5), Vec [1 / 10]]
     = Inr [[90, 10, 0, 10], [441 / 5, 54 / 5, 1, 59 / 5]]"
proof -
  have e1: "euler_odeint sir_dx_dt [90, 10, 0, 10] [0, 1] [1 / 5, 1 / 10]
      = Inr [[90, 10, 0, 10], [441 / 5, 54 / 5, 1, 59 / 5]]"
    by (simp add: euler_odeint_def sir_dx_dt_def np_div_def bind_err_simps Let_def)
  have "run_time_varying (euler_odeint sir_dx_dt) 2 [90, 10, 0, 10] [Scalar (1 / 5), Vec [1 / 10]]
      = Inr [[90, 10, 0, 10], [441 / 5, 54 / 5, 1, 59 / 5]]"
    by (simp add: run_time_varying_def broadcast_to_def scan_def slices_def advance_def
        t_one_step_def index_at_def vstack_def e1 bind_err_simps)
  then show ?thesis
    by (simp add: run_def)
qed

text \<open>
  Claim C5, amended. \<open>run\<close> and \<open>run_batch\<close> check nothing themselves; what is rejected
  is what the broadcast of the parameters rejects, before any call of the integrator (the
  result is the same for all integrators).

  \<^item> A tuple mixing scalars with sequences of length \<open>T - 1\<close> (\<open>T \<ge> 2\<close>) is valid: \<open>run\<close> is
    the chain of unit steps, and it returns \<open>x0\<close> followed by the states of the chain when
    the integrator's steps succeed with states of the dimension of \<open>x0\<close>.
  \<^item> For \<open>T \<ge> 1\<close>, \<open>run\<close> with a sequence whose length is neither \<open>T - 1\<close> nor \<open>1\<close> raises
    \<open>ValueError\<close>, and so does \<open>run_batch\<close> (on a batch of at least one instance) with an
    entry whose batch axis is neither the batch size nor \<open>1\<close>, or whose step axis is
    neither \<open>T - 1\<close> nor \<open>1\<close>.
  \<^item> For \<open>T < 1\<close>, \<open>run\<close> with a sequence entry and \<open>run_batch\<close> with a non-empty tuple
    (and batch) fail on the first entry: with \<open>ValueError\<close> where its shape cannot be broadcast and
    with \<open>TypeError\<close>, for the negative size, where it can. \<open>run\<close> with scalars only
    is not rejected: the integrator is called on the empty grid.
  \<^item> An axis of size \<open>1\<close> is broadcast without notice: in \<open>run\<close> a sequence of length \<open>1\<close>
    is treated as the scalar it holds, and in \<open>run_batch\<close> a vector of length \<open>1\<close> as that
    value for every instance.
\<close>

theorem run_invalid_arguments:
  "(2 \<le> T \<and> list_all (is_scalar_or_per_step T) theta
      \<and> list_ex (\<lambda>a. ndim a = 0) theta \<and> list_ex (\<lambda>a. ndim a = 1) theta
      \<longrightarrow> run odeint T x0 theta =
            bind_err (chain_unit_steps odeint x0 (map (theta_slice theta) [0..<nat (T - 1)]))
              (vstack x0))
   \<and> (2 \<le> T \<and> list_all (is_scalar_or_per_step T) theta
      \<and> list_ex (\<lambda>a. ndim a = 0) theta \<and> list_ex (\<lambda>a. ndim a = 1) theta
      \<and> chain_unit_steps odeint x0 (map (theta_slice theta) [0..<nat (T - 1)]) = Inr Xs
      \<and> list_all (\<lambda>r. length r = length x0) Xs
      \<longrightarrow> run odeint T x0 theta = Inr (x0 # Xs))
   \<and> (1 \<le> T \<and> list_ex (wrong_length T) theta
      \<longrightarrow> run odeint T x0 theta = Inl ValueError)
   \<and> (1 \<le> T \<and> xb \<noteq> [] \<and> list_ex (wrong_batch_shape T (length xb)) btheta
      \<longrightarrow> run_batch bode T xb btheta = Inl ValueError)
   \<and> (T < 1 \<and> \<not> list_all (\<lambda>a. ndim a = 0) theta
      \<longrightarrow> run odeint T x0 theta
            = Inl (if wrong_length T (hd theta) then ValueError else TypeError))
   \<and> (T < 1 \<and> xb \<noteq> [] \<and> btheta \<noteq> []
      \<longrightarrow> run_batch bode T xb btheta
            = Inl (if wrong_batch_shape T (length xb) (hd btheta) then ValueError else TypeError))
   \<and> (T < 1 \<and> list_all (\<lambda>a. ndim a = 0) theta
      \<longrightarrow> run odeint T x0 theta = odeint x0 [] (scalar_values theta))
   \<and> run odeint T x0 (pre @ Vec [r] # post)
       = run_time_varying odeint T x0 (pre @ Scalar r # post)
   \<and> run_batch bode T xb (bpre @ BVec [r] # bpost)
       = run_batch bode T xb (bpre @ BVec (replicate (length xb) r) # bpost)"
proof -
  let ?sl = "map (theta_slice theta) [0..<nat (T - 1)]"
  have a: "run odeint T x0 theta = bind_err (chain_unit_steps odeint x0 ?sl) (vstack x0)"
    if "2 \<le> T \<and> list_all (is_scalar_or_per_step T) theta
      \<and> list_ex (\<lambda>a. ndim a = 0) theta \<and> list_ex (\<lambda>a. ndim a = 1) theta"
  proof -
    from that have t: "2 \<le> T" and w: "list_all (is_scalar_or_per_step T) theta"
      and v: "list_ex (\<lambda>a. ndim a = 1) theta"
      by simp_all
    show ?thesis
      unfolding run_not_all_scalar [OF ex_vec_not_all_scalar [OF v]]
      by (rule run_time_varying_chain [OF t w])
  qed
  have a': "run odeint T x0 theta = Inr (x0 # Xs)"
    if "2 \<le> T \<and> list_all (is_scalar_or_per_step T) theta
      \<and> list_ex (\<lambda>a. ndim a = 0) theta \<and> list_ex (\<lambda>a. ndim a = 1) theta
      \<and> chain_unit_steps odeint x0 ?sl = Inr Xs
      \<and> list_all (\<lambda>r. length r = length x0) Xs"
  proof -
    from that have c: "chain_unit_steps odeint x0 ?sl = Inr Xs"
      and l: "list_all (\<lambda>r. length r = length x0) Xs"
      by simp_all
    from that have "run odeint T x0 theta = bind_err (chain_unit_steps odeint x0 ?sl) (vstack x0)"
      by (intro a) simp
    then show ?thesis
      unfolding c bind_err_simps vstack_ok [OF l] .
  qed
  have b: "run odeint T x0 theta = Inl ValueError"
    if "1 \<le> T \<and> list_ex (wrong_length T) theta"
  proof -
    from that have t: "1 \<le> T" and w: "list_ex (wrong_length T) theta"
      by simp_all
    show ?thesis
      unfolding run_not_all_scalar [OF wrong_length_not_all_scalar [OF w]]
      by (rule run_time_varying_wrong_length [OF t w])
  qed
  have c: "run_batch bode T xb btheta = Inl ValueError"
    if "1 \<le> T \<and> xb \<noteq> [] \<and> list_ex (wrong_batch_shape T (length xb)) btheta"
    using that by (intro run_batch_wrong_shape) simp_all
  have d: "run odeint T x0 theta = Inl (if wrong_length T (hd theta) then ValueError else TypeError)"
    if "T < 1 \<and> \<not> list_all (\<lambda>a. ndim a = 0) theta"
  proof -
    from that have t: "T < 1" and ns: "\<not> list_all (\<lambda>a. ndim a = 0) theta"
      by simp_all
    show ?thesis
      unfolding run_not_all_scalar [OF ns]
      by (rule run_time_varying_negative [OF t not_all_scalar_ex [OF ns]])
  qed
  have e: "run_batch bode T xb btheta
      = Inl (if wrong_batch_shape T (length xb) (hd btheta) then ValueError else TypeError)"
    if "T < 1 \<and> xb \<noteq> [] \<and> btheta \<noteq> []"
    using that by (intro run_batch_negative) simp_all
  have f: "run odeint T x0 theta = odeint x0 [] (scalar_values theta)"
    if "T < 1 \<and> list_all (\<lambda>a. ndim a = 0) theta"
    using that by (simp add: run_all_scalar arange_empty)
  have g: "run odeint T x0 (pre @ Vec [r] # post)
      = run_time_varying odeint T x0 (pre @ Scalar r # post)"
    unfolding run_not_all_scalar [OF singleton_not_all_scalar]
    by (rule run_time_varying_singleton)
  have h: "run_batch bode T xb (bpre @ BVec [r] # bpost)
      = run_batch bode T xb (bpre @ BVec (replicate (length xb) r) # bpost)"
    by (rule run_batch_singleton)
  show ?thesis
    using a a' b c d e f g h by (intro conjI impI) blast+
qed

theorem run_invalid_arguments_witness:
  "run (euler_odeint sir_dx_dt) 3 [90, 10, 0, 10] [Scalar (1 / 5), Vec [1 / 10, 1 / 10]]
     = Inr [[90, 10, 0, 10], [441 / 5, 54 / 5, 1, 59 / 5],
            [539343 / 6250, 72657 / 6250, 52 / 25, 85657 / 6250]]
   \<and> run (euler_odeint sir_dx_dt) 3 [90, 10, 0, 10] [Scalar (1 / 5), Vec [1 / 10, 1 / 10, 1 / 10]]
     = Inl ValueError
   \<and> run_batch (build_odeint_batch euler_odeint sir_dx_dt) 3 [[90, 10, 0, 10], [990, 10, 0, 10]]
       [BVec [1 / 5, 1 / 5, 1 / 5], BVec [1 / 10, 1 / 10]]
     = Inl ValueError
   \<and> run (euler_odeint sir_dx_dt) 0 [90, 10, 0, 10] [Scalar (1 / 5), Vec [1 / 10]]
     = Inl TypeError
   \<and> run (euler_odeint sir_dx_dt) 0 [90, 10, 0, 10] [Vec [1 / 5, 1 / 5], Scalar (1 / 10)]
     = Inl ValueError
   \<and> run_batch (build_odeint_batch euler_odeint sir_dx_dt) 0 [[90, 10, 0, 10], [990, 10, 0, 10]]
       [BVec [1 / 5, 1 / 5], BVec [1 / 10, 1 / 10]]
     = Inl TypeError
   \<and> run_batch (build_odeint_batch euler_odeint sir_dx_dt) 0 [[90, 10, 0, 10], [990, 10, 0, 10]]
       [BVec [1 / 5, 1 / 5, 1 / 5], BVec [1 / 10, 1 / 10]]
     = Inl ValueError
   \<and> run (euler_odeint sir_dx_dt) 0 [90, 10, 0, 10] [Scalar (1 / 5), Scalar (1 / 10)]
     = euler_odeint sir_dx_dt [90, 10, 0, 10] [] [1 / 5, 1 / 10]"
proof -
  note th = run_invalid_arguments
  have sl: "map (theta_slice [Scalar (1 / 5), Vec [1 / 10, 1 / 10]]) [0..<nat (3 - 1)]
      = [[1 / 5, 1 / 10], [1 / 5, 1 / 10]]"
    by (simp add: theta_slice_def eval_nat_numeral)
  have e1: "euler_odeint sir_dx_dt [90, 10, 0, 10] [0, 1] [1 / 5, 1 / 10]
      = Inr [[90, 10, 0, 10], [441 / 5, 54 / 5, 1, 59 / 5]]"
    by (simp add: euler_odeint_def sir_dx_dt_def np_div_def bind_err_simps Let_def)
  have e2: "euler_odeint sir_dx_dt [441 / 5, 54 / 5, 1, 59 / 5] [0, 1] [1 / 5, 1 / 10]
      = Inr [[441 / 5, 54 / 5, 1, 59 / 5],
             [539343 / 6250, 72657 / 6250, 52 / 25, 85657 / 6250]]"
    by (simp add: euler_odeint_def sir_dx_dt_def np_div_def bind_err_simps Let_def)
  have h1: "(2::int) \<le> 3 \<and> list_all (is_scalar_or_per_step 3) [Scalar (1 / 5), Vec [1 / 10, 1 / 10]]
      \<and> list_ex (\<lambda>a. ndim a = 0) [Scalar (1 / 5), Vec [1 / 10, 1 / 10]]
      \<and> list_ex (\<lambda>a. ndim a = 1) [Scalar (1 / 5), Vec [1 / 10, 1 / 10]]
      \<and> chain_unit_steps (euler_odeint sir_dx_dt) [90, 10, 0, 10]
          (map (theta_slice [Scalar (1 / 5), Vec [1 / 10, 1 / 10]]) [0..<nat (3 - 1)])
        = Inr [[441 / 5, 54 / 5, 1, 59 / 5], [539343 / 6250, 72657 / 6250, 52 / 25, 85657 / 6250]]
      \<and> list_all (\<lambda>r. length r = length [90, 10, 0, 10 :: real])
          [[441 / 5, 54 / 5, 1, 59 / 5], [539343 / 6250, 72657 / 6250, 52 / 25, 85657 / 6250]]"
    unfolding sl by (simp add: e1 e2)
  have r1: "run (euler_odeint sir_dx_dt) 3 [90, 10, 0, 10] [Scalar (1 / 5), Vec [1 / 10, 1 / 10]]
      = Inr [[90, 10, 0, 10], [441 / 5, 54 / 5, 1, 59 / 5],
             [539343 / 6250, 72657 / 6250, 52 / 25, 85657 / 6250]]"
    using th [THEN conjunct2, THEN conjunct1, THEN mp, OF h1] .
  have h2: "(1::int) \<le> 3 \<and> list_ex (wrong_length 3) [Scalar (1 / 5), Vec [1 / 10, 1 / 10, 1 / 10]]"
    by simp
  have r2: "run (euler_odeint sir_dx_dt) 3 [90, 10, 0, 10]
        [Scalar (1 / 5), Vec [1 / 10, 1 / 10, 1 / 10]] = Inl ValueError"
    using th [THEN conjunct2, THEN conjunct2, THEN conjunct1, THEN mp, OF h2] .
  have h3: "(1::int) \<le> 3 \<and> [[90, 10, 0, 10], [990, 10, 0, 10 :: real]] \<noteq> []
      \<and> list_ex (wrong_batch_shape 3 (length [[90, 10, 0, 10], [990, 10, 0, 10 :: real]]))
          [BVec [1 / 5, 1 / 5, 1 / 5], BVec [1 / 10, 1 / 10]]"
    by simp
  have r3: "run_batch (build_odeint_batch euler_odeint sir_dx_dt) 3
        [[90, 10, 0, 10], [990, 10, 0, 10]] [BVec [1 / 5, 1 / 5, 1 / 5], BVec [1 / 10, 1 / 10]]
      = Inl ValueError"
    using th [THEN conjunct2, THEN conjunct2, THEN conjunct2, THEN conjunct1, THEN mp, OF h3] .
  have h4: "(0::int) < 1 \<and> \<not> list_all (\<lambda>a. ndim a = 0) [Scalar (1 / 5), Vec [1 / 10]]"
    by simp
  have r4: "run (euler_odeint sir_dx_dt) 0 [90, 10, 0, 10] [Scalar (1 / 5), Vec [1 / 10]]
      = Inl (if wrong_length 0 (hd [Scalar (1 / 5), Vec [1 / 10]]) then ValueError else TypeError)"
    using th [THEN conjunct2, THEN conjunct2, THEN conjunct2, THEN conjunct2, THEN conjunct1,
        THEN mp, OF h4] .
  have h5: "(0::int) < 1 \<and> \<not> list_all (\<lambda>a. ndim a = 0) [Vec [1 / 5, 1 / 5], Scalar (1 / 10)]"
    by simp
  have r5: "run (euler_odeint sir_dx_dt) 0 [90, 10, 0, 10] [Vec [1 / 5, 1 / 5], Scalar (1 / 10)]
      = Inl (if wrong_length 0 (hd [Vec [1 / 5, 1 / 5], Scalar (1 / 10)])
             then ValueError else TypeError)"
    using th [THEN conjunct2, THEN conjunct2, THEN conjunct2, THEN conjunct2, THEN conjunct1,
        THEN mp, OF h5] .
  have h6: "(0::int) < 1 \<and> [[90, 10, 0, 10], [990, 10, 0, 10 :: real]] \<noteq> []
      \<and> [BVec [1 / 5, 1 / 5], BVec [1 / 10, 1 / 10]] \<noteq> []"
    by simp
  have r6: "run_batch (build_odeint_batch euler_odeint sir_dx_dt) 0
        [[90, 10, 0, 10], [990, 10, 0, 10]] [BVec [1 / 5, 1 / 5], BVec [1 / 10, 1 / 10]]
      = Inl (if wrong_batch_shape 0 (length [[90, 10, 0, 10], [990, 10, 0, 10 :: real]])
                 (hd [BVec [1 / 5, 1 / 5], BVec [1 / 10, 1 / 10]])
             then ValueError else TypeError)"
    using th [THEN conjunct2, THEN conjunct2, THEN conjunct2, THEN conjunct2, THEN conjunct2,
        THEN conjunct1, THEN mp, OF h6] .
  have h7: "(0::int) < 1 \<and> [[90, 10, 0, 10], [990, 10, 0, 10 :: real]] \<noteq> []
      \<and> [BVec [1 / 5, 1 / 5, 1 / 5], BVec [1 / 10, 1 / 10]] \<noteq> []"
    by simp
  have r7: "run_batch (build_odeint_batch euler_odeint sir_dx_dt) 0
        [[90, 10, 0, 10], [990, 10, 0, 10]] [BVec [1 / 5, 1 / 5, 1 / 5], BVec [1 / 10, 1 / 10]]
      = Inl (if wrong_batch_shape 0 (length [[90, 10, 0, 10], [990, 10, 0, 10 :: real]])
                 (hd [BVec [1 / 5, 1 / 5, 1 / 5], BVec [1 / 10, 1 / 10]])
             then ValueError else TypeError)"
    using th [THEN conjunct2, THEN conjunct2, THEN conjunct2, THEN conjunct2, THEN conjunct2,
        THEN conjunct1, THEN mp, OF h7] .
  have h8: "(0::int) < 1 \<and> list_all (\<lambda>a. ndim a = 0) [Scalar (1 / 5), Scalar (1 / 10)]"
    by simp
  have r8: "run (euler_odeint sir_dx_dt) 0 [90, 10, 0, 10] [Scalar (1 / 5), Scalar (1 / 10)]
      = euler_odeint sir_dx_dt [90, 10, 0, 10] [] (scalar_values [Scalar (1 / 5), Scalar (1 / 10)])"
    using th [THEN conjunct2, THEN conjunct2, THEN conjunct2, THEN conjunct2, THEN conjunct2,
        THEN conjunct2, THEN conjunct1, THEN mp, OF h8] .
  from r1 r2 r3 r4 r5 r6 r7 r8 show ?thesis
    by simp
qed

section \<open>Properties of the vectorized derivative\<close>

lemma take_drop_concat:
  "list_all (\<lambda>r. length r = d) X \<Longrightarrow> i < length X \<Longrightarrow>
   take d (drop (i * d) (concat X)) = X ! i"
proof (induction X arbitrary: i)
  case Nil
  then show ?case by simp
next
  case (Cons r R)
  show ?case
  proof (cases i)
    case 0
    with Cons.prems show ?thesis by simp
  next
    case (Suc j)
    with Cons.prems have "take d (drop (j * d) (concat R)) = R ! j"
      by (intro Cons.IH) simp_all
    with Suc Cons.prems show ?thesis by simp
  qed
qed

lemma length_concat_rows:
  "list_all (\<lambda>r. length r = d) X \<Longrightarrow> length (concat X) = length X * d"
  by (induction X) simp_all

lemma reshape_rows_concat:
  assumes "X \<noteq> []" and "list_all (\<lambda>r. length r = d) X"
  shows "reshape_rows (length X) (concat X) = Inr X"
proof -
  have pos: "0 < length X" using assms(1) by simp
  have len: "length (concat X) = length X * d"
    by (rule length_concat_rows [OF assms(2)])
  have dv: "length (concat X) div length X = d"
    unfolding len using pos by simp
  have md: "length (concat X) mod length X = 0"
    unfolding len by simp
  have "map (\<lambda>i. take d (drop (i * d) (concat X))) [0..<length X] = map (\<lambda>i. X ! i) [0..<length X]"
    by (rule map_cong) (simp_all add: take_drop_concat [OF assms(2)])
  also have "\<dots> = X"
    by (rule map_nth)
  finally have rows: "map (\<lambda>i. take d (drop (i * d) (concat X))) [0..<length X] = X" .
  show ?thesis
    unfolding reshape_rows_def dv md rows using pos by simp
qed

lemma dx_dt_batch_rows:
  assumes "X \<noteq> []" and "list_all (\<lambda>r. length r = d) X"
    and "args \<noteq> []" and "list_all (\<lambda>a. length a = length X) args"
  shows "dx_dt_batch f (concat X) t args =
         bind_err (sequence_err (map (\<lambda>i. f (X ! i) t (map (\<lambda>a. a ! i) args)) [0..<length X]))
           (\<lambda>rows. Inr (concat rows))"
proof -
  from assms(3) obtain a0 as where args: "args = a0 # as"
    by (cases args) simp_all
  with assms(4) have a0: "length a0 = length X"
    by simp
  have v: "vmap_dx_dt f X t args =
      sequence_err (map (\<lambda>i. f (X ! i) t (map (\<lambda>a. a ! i) args)) [0..<length X])"
    using assms(4) by (simp add: vmap_dx_dt_def)
  have "dx_dt_batch f (concat X) t (a0 # as) =
      bind_err (reshape_rows (length X) (concat X)) (\<lambda>x'.
        bind_err (vmap_dx_dt f x' t (a0 # as)) (\<lambda>d. Inr (concat d)))"
    by (simp add: dx_dt_batch_def a0)
  then show ?thesis
    unfolding args [symmetric] reshape_rows_concat [OF assms(1,2)] bind_err_simps v .
qed

text \<open>
  Claim C2. For a batch \<open>X\<close> of at least one state, all of one dimension \<open>d\<close>, a time \<open>t\<close>
  and a non-empty tuple of parameter sequences with one value per instance, the
  vectorized derivative of the flattened batch is what the derivative function gives on
  each row separately, with that row's parameters and the shared time, stacked and
  flattened.
\<close>

theorem dx_dt_batch_per_instance:
  assumes "X \<noteq> []" and "list_all (\<lambda>r. length r = d) X"
    and "args \<noteq> []" and "list_all (\<lambda>a. length a = length X) args"
  shows "dx_dt_batch f (concat X) t args = per_instance_dx_dt f X t args"
  unfolding per_instance_dx_dt_def by (rule dx_dt_batch_rows [OF assms])

theorem dx_dt_batch_per_instance_witness:
  "dx_dt_batch sir_dx_dt [90, 10, 0, 10, 990, 10, 0, 10] 0 [[1 / 5, 3 / 10], [1 / 10, 1 / 10]]
     = Inr [- (9 / 5), 4 / 5, 1, 9 / 5, - (297 / 100), 197 / 100, 1, 297 / 100]
   \<and> per_instance_dx_dt sir_dx_dt [[90, 10, 0, 10], [990, 10, 0, 10]] 0
       [[1 / 5, 3 / 10], [1 / 10, 1 / 10]]
     = Inr [- (9 / 5), 4 / 5, 1, 9 / 5, - (297 / 100), 197 / 100, 1, 297 / 100]"
proof -
  have x: "[[90, 10, 0, 10], [990, 10, 0, 10 :: real]] \<noteq> []"
    by simp
  have r: "list_all (\<lambda>r. length r = 4) [[90, 10, 0, 10], [990, 10, 0, 10 :: real]]"
    by simp
  have a: "[[1 / 5, 3 / 10], [1 / 10, 1 / 10 :: real]] \<noteq> []"
    by simp
  have l: "list_all (\<lambda>a. length a = length [[90, 10, 0, 10], [990, 10, 0, 10 :: real]])
      [[1 / 5, 3 / 10], [1 / 10, 1 / 10 :: real]]"
    by simp
  have c: "concat [[90, 10, 0, 10], [990, 10, 0, 10 :: real]] = [90, 10, 0, 10, 990, 10, 0, 10]"
    by simp
  have p: "per_instance_dx_dt sir_dx_dt [[90, 10, 0, 10], [990, 10, 0, 10]] 0
       [[1 / 5, 3 / 10], [1 / 10, 1 / 10]]
     = Inr [- (9 / 5), 4 / 5, 1, 9 / 5, - (297 / 100), 197 / 100, 1, 297 / 100]"
    by (simp add: per_instance_dx_dt_def sir_dx_dt_def np_div_def bind_err_simps Let_def)
  have "dx_dt_batch sir_dx_dt [90, 10, 0, 10, 990, 10, 0, 10] 0 [[1 / 5, 3 / 10], [1 / 10, 1 / 10]]
     = Inr [- (9 / 5), 4 / 5, 1, 9 / 5, - (297 / 100), 197 / 100, 1, 297 / 100]"
    using dx_dt_batch_per_instance [OF x r a l, of sir_dx_dt 0] unfolding c p .
  with p show ?thesis
    by (simp only: simp_thms)
qed

section \<open>A worked batch\<close>

text \<open>
  Two SIR instances with different contact rates, advanced by one unit step of the batch
  integrator built over the fixed-step integrator.
\<close>

lemma sir_batch_derivative:
  "dx_dt_batch sir_dx_dt [90, 10, 0, 10, 990, 10, 0, 10] 0 [[1 / 5, 3 / 10], [1 / 10, 1 / 10]]
     = Inr [- (9 / 5), 4 / 5, 1, 9 / 5, - (297 / 100), 197 / 100, 1, 297 / 100]"
proof -
  have x: "[[90, 10, 0, 10], [990, 10, 0, 10 :: real]] \<noteq> []"
    by simp
  have r: "list_all (\<lambda>r. length r = 4) [[90, 10, 0, 10], [990, 10, 0, 10 :: real]]"
    by simp
  have a: "[[1 / 5, 3 / 10], [1 / 10, 1 / 10 :: real]] \<noteq> []"
    by simp
  have l: "list_all (\<lambda>a. length a = length [[90, 10, 0, 10], [990, 10, 0, 10 :: real]])
      [[1 / 5, 3 / 10], [1 / 10, 1 / 10 :: real]]"
    by simp
  have c: "concat [[90, 10, 0, 10], [990, 10, 0, 10 :: real]] = [90, 10, 0, 10, 990, 10, 0, 10]"
    by simp
  show ?thesis
    using dx_dt_batch_rows [OF x r a l, of sir_dx_dt 0] unfolding c
    by (simp add: sir_dx_dt_def np_div_def bind_err_simps Let_def)
qed

lemma sir_batch_unit_step:
  "build_odeint_batch euler_odeint sir_dx_dt [[90, 10, 0, 10], [990, 10, 0, 10]] [0, 1]
     [[1 / 5, 3 / 10], [1 / 10, 1 / 10]]
     = Inr [[[90, 10, 0, 10], [441 / 5, 54 / 5, 1, 59 / 5]],
            [[990, 10, 0, 10], [98703 / 100, 1197 / 100, 1, 1297 / 100]]]"
proof -
  have e: "euler_odeint (dx_dt_batch sir_dx_dt) [90, 10, 0, 10, 990, 10, 0, 10] [0, 1]
       [[1 / 5, 3 / 10], [1 / 10, 1 / 10]]
     = Inr [[90, 10, 0, 10, 990, 10, 0, 10],
            [441 / 5, 54 / 5, 1, 59 / 5, 98703 / 100, 1197 / 100, 1, 1297 / 100]]"
    by (simp add: euler_odeint_def sir_batch_derivative bind_err_simps)
  show ?thesis
    by (simp add: build_odeint_batch_def odeint_batch_def ncols_def e bind_err_simps
        reshape3_def swapaxes01_def)
qed





section \<open>The first state of a trajectory\<close>








section \<open>Properties of batch runs\<close>

lemma map_nth_fun: "map (\<lambda>i. f (xs ! i)) [0..<length xs] = map f xs"
  by (rule nth_equalityI) simp_all

lemma expand_and_transpose_shaped:
  assumes "1 \<le> T" and "0 < b" and "has_batch_shape T b a"
  shows "expand_and_transpose T b a = Inr (map (\<lambda>k. step_values k a) [0..<nat (T - 1)])"
proof (cases a)
  case (BVec v)
  with assms(3) have l: "length v = b" by simp
  have "map (\<lambda>i. v ! i) [0..<b] = v"
    unfolding l [symmetric] by (rule map_nth)
  with assms(1) l BVec show ?thesis
    by (simp add: expand_and_transpose_def map_replicate_const)
next
  case (BMat m)
  with assms(3) have l: "length m = b" and r: "list_all (\<lambda>r. int (length r) = T - 1) m"
    by simp_all
  from l assms(2) obtain r0 rs where m: "m = r0 # rs"
    by (cases m) auto
  with r have r0: "int (length r0) = T - 1" by simp
  then have nc: "int (ncols m) = T - 1"
    by (simp add: ncols_def m)
  have rect: "list_all (\<lambda>r. length r = ncols m) m"
    using r nc by (auto simp: list_all_iff)
  have inner: "map (\<lambda>i. m ! i ! k) [0..<b] = map (\<lambda>row. row ! k) m" for k
    unfolding l [symmetric] by (rule map_nth_fun)
  have "expand_and_transpose T b (BMat m) =
      Inr (map (\<lambda>k. map (\<lambda>i. m ! i ! k) [0..<b]) [0..<nat (T - 1)])"
    using assms(1) l nc rect by (simp add: expand_and_transpose_def)
  then show ?thesis
    unfolding BMat inner by simp
qed

lemma sequence_err_expand:
  assumes "1 \<le> T" and "0 < b" and "list_all (has_batch_shape T b) theta"
  shows "sequence_err (map (expand_and_transpose T b) theta)
         = Inr (map (\<lambda>a. map (\<lambda>k. step_values k a) [0..<nat (T - 1)]) theta)"
  using assms(3)
proof (induction theta)
  case Nil
  show ?case by simp
next
  case (Cons a as)
  then show ?case
    by (simp add: expand_and_transpose_shaped [OF assms(1,2)] bind_err_simps)
qed

lemma slices_expanded:
  "slices (map (\<lambda>a. map (\<lambda>k. step_values k a) [0..<n]) theta) n = map (step_params theta) [0..<n]"
  by (simp add: slices_def step_params_def)

lemma scan_loop_advance_batch:
  "scan_loop (advance_batch bode) x sl =
     bind_err (fold_batch_steps bode x sl) (\<lambda>Xs. Inr (last (x # Xs), Xs))"
proof (induction sl arbitrary: x)
  case Nil
  show ?case by (simp add: bind_err_simps)
next
  case (Cons th ths)
  show ?case
  proof (cases "bode x [0, 1] th")
    case (Inl e)
    then have "advance_batch bode x th = Inl e"
      by (simp add: advance_batch_def t_one_step_def bind_err_simps)
    with Inl show ?thesis by (simp add: bind_err_simps)
  next
    case (Inr Y)
    show ?thesis
    proof (cases "list_ex (\<lambda>tr. tr = []) Y")
      case True
      then have "\<not> list_all (\<lambda>tr. tr \<noteq> []) Y"
        by (auto simp: list_ex_iff list_all_iff)
      with Inr have "advance_batch bode x th = Inl IndexError"
        by (simp add: advance_batch_def t_one_step_def last_time_slice_def bind_err_simps)
      with Inr True show ?thesis by (simp add: bind_err_simps)
    next
      case False
      then have "list_all (\<lambda>tr. tr \<noteq> []) Y"
        by (auto simp: list_ex_iff list_all_iff)
      with Inr have "advance_batch bode x th = Inr (map last Y, map last Y)"
        by (simp add: advance_batch_def t_one_step_def last_time_slice_def bind_err_simps)
      with Inr False show ?thesis
        by (cases "fold_batch_steps bode (map last Y) ths")
           (simp_all add: bind_err_simps Cons.IH)
    qed
  qed
qed

lemma length_fold_batch_steps:
  "fold_batch_steps bode x sl = Inr Xs \<Longrightarrow> length Xs = length sl"
  by (induction sl arbitrary: x Xs) (auto split: sum.splits if_splits)

lemma swap_then_concatenate:
  "bind_err (swapaxes01 (length x0) Xs) (concatenate_time x0) = assemble x0 Xs"
proof (cases "list_all (\<lambda>Xk. length Xk = length x0) Xs")
  case False
  then show ?thesis
    by (auto simp: swapaxes01_def assemble_def bind_err_simps list_all_iff)
next
  case True
  let ?X' = "map (\<lambda>i. map (\<lambda>Xk. Xk ! i) Xs) [0..<length x0]"
  have sw: "swapaxes01 (length x0) Xs = Inr ?X'"
    using True by (simp add: swapaxes01_def)
  have cond: "list_all (\<lambda>i. list_all (\<lambda>s. length s = length (x0 ! i)) (?X' ! i)) [0..<length x0]
      \<longleftrightarrow> list_all (\<lambda>Xk. length Xk = length x0
            \<and> list_all (\<lambda>i. length (Xk ! i) = length (x0 ! i)) [0..<length x0]) Xs"
    using True by (auto simp: list_all_iff)
  have rows: "map (\<lambda>i. x0 ! i # ?X' ! i) [0..<length x0]
      = map (\<lambda>i. x0 ! i # map (\<lambda>Xk. Xk ! i) Xs) [0..<length x0]"
    by (rule map_cong) simp_all
  show ?thesis
    unfolding sw bind_err_simps concatenate_time_def assemble_def cond rows
    by simp
qed

lemma run_batch_fold:
  assumes "2 \<le> T" and "x0 \<noteq> []" and "list_all (has_batch_shape T (length x0)) theta"
  shows "run_batch bode T x0 theta =
         bind_err (fold_batch_steps bode x0 (map (step_params theta) [0..<nat (T - 1)]))
           (assemble x0)"
proof -
  let ?n = "nat (T - 1)"
  let ?th = "map (\<lambda>a. map (\<lambda>k. step_values k a) [0..<?n]) theta"
  have T1: "1 \<le> T" using assms(1) by simp
  have b: "0 < length x0" using assms(2) by simp
  have len: "list_all (\<lambda>a. int (length a) = T - 1) ?th"
    using T1 by (simp add: list_all_iff)
  have sc: "scan (advance_batch bode) x0 ?th av (T - 1)
      = scan_loop (advance_batch bode) x0 (map (step_params theta) [0..<?n])" for av
    using assms(1) len by (simp add: scan_def slices_expanded)
  have "run_batch bode T x0 theta =
      bind_err (bind_err (fold_batch_steps bode x0 (map (step_params theta) [0..<?n]))
                  (\<lambda>Xs. Inr (last (x0 # Xs), Xs)))
        (\<lambda>(c, X). bind_err (swapaxes01 (length x0) X) (concatenate_time x0))"
    unfolding run_batch_def Let_def sequence_err_expand [OF T1 b assms(3)] bind_err_simps sc
      scan_loop_advance_batch ..
  also have "\<dots> = bind_err (fold_batch_steps bode x0 (map (step_params theta) [0..<?n]))
      (assemble x0)"
    by (cases "fold_batch_steps bode x0 (map (step_params theta) [0..<?n])")
       (simp_all add: bind_err_simps swap_then_concatenate)
  finally show ?thesis .
qed

lemma assemble_empty: "assemble x0 [] = Inr (map (\<lambda>x. [x]) x0)"
proof -
  have "map (\<lambda>i. [x0 ! i]) [0..<length x0] = map (\<lambda>x. [x]) x0"
    by (rule map_nth_fun)
  then show ?thesis
    by (simp add: assemble_def)
qed

lemma run_batch_single_point:
  assumes "x0 \<noteq> []" and "list_all (has_batch_shape 1 (length x0)) theta"
  shows "run_batch bode 1 x0 theta =
         bind_err (traced (advance_batch bode x0
                     (replicate (length theta) (replicate (length x0) 0))))
           (\<lambda>u. Inr (map (\<lambda>x. [x]) x0))"
proof -
  have one: "(1::int) \<le> 1" by simp
  have b: "0 < length x0" using assms(1) by simp
  have th: "sequence_err (map (expand_and_transpose 1 (length x0)) theta)
      = Inr (replicate (length theta) [])"
    unfolding sequence_err_expand [OF one b assms(2)] by (simp add: map_replicate_const)
  have sc: "scan (advance_batch bode) x0 (replicate (length theta) [])
        (replicate (length theta) (replicate (length x0) 0)) 0
      = bind_err (traced (advance_batch bode x0
                    (replicate (length theta) (replicate (length x0) 0))))
          (\<lambda>u. Inr (x0, []))"
    by (simp add: scan_def list_all_iff)
  have fin: "bind_err (swapaxes01 (length x0) []) (concatenate_time x0) = Inr (map (\<lambda>x. [x]) x0)"
    unfolding swap_then_concatenate by (rule assemble_empty)
  have "run_batch bode 1 x0 theta =
      bind_err (scan (advance_batch bode) x0 (replicate (length theta) [])
                  (replicate (length theta) (replicate (length x0) 0)) 0)
        (\<lambda>(c, X). bind_err (swapaxes01 (length x0) X) (concatenate_time x0))"
    unfolding run_batch_def Let_def th bind_err_simps by simp
  also have "\<dots> = bind_err (traced (advance_batch bode x0
                    (replicate (length theta) (replicate (length x0) 0))))
          (\<lambda>u. Inr (map (\<lambda>x. [x]) x0))"
    unfolding sc
    by (cases "traced (advance_batch bode x0
                  (replicate (length theta) (replicate (length x0) 0)))")
       (simp_all add: bind_err_simps fin)
  finally show ?thesis .
qed

lemma traced_advance_batch_raises:
  "bode x [0, 1] th = Inl e \<Longrightarrow> e \<noteq> NonFinite \<Longrightarrow> traced (advance_batch bode x th) = Inl e"
  by (simp add: traced_def advance_batch_def t_one_step_def bind_err_simps)

lemma traced_advance_batch_returns:
  "bode x [0, 1] th = Inr Y \<Longrightarrow> list_all (\<lambda>tr. tr \<noteq> []) Y \<Longrightarrow>
   traced (advance_batch bode x th) = Inr ()"
  by (simp add: traced_def advance_batch_def t_one_step_def last_time_slice_def bind_err_simps)

lemma assemble_shape:
  assumes "assemble x0 Xs = Inr Xb"
  shows "length Xb = length x0
         \<and> (\<forall>i<length x0. length (Xb ! i) = Suc (length Xs) \<and> hd (Xb ! i) = x0 ! i
               \<and> list_all (\<lambda>s. length s = length (x0 ! i)) (Xb ! i))"
proof -
  from assms have ok: "list_all (\<lambda>Xk. length Xk = length x0
        \<and> list_all (\<lambda>i. length (Xk ! i) = length (x0 ! i)) [0..<length x0]) Xs"
    and Xb: "Xb = map (\<lambda>i. x0 ! i # map (\<lambda>Xk. Xk ! i) Xs) [0..<length x0]"
    by (auto simp: assemble_def split: if_splits)
  from ok have "list_all (\<lambda>s. length s = length (x0 ! i)) (map (\<lambda>Xk. Xk ! i) Xs)"
    if "i < length x0" for i
    using that by (auto simp: list_all_iff)
  then show ?thesis
    unfolding Xb by simp
qed

text \<open>
  Claim C4. For a batch of at least one instance and a tuple whose entries have shape
  \<open>(batch_sz,)\<close> or \<open>(batch_sz, T-1)\<close>, \<open>run_batch\<close> is the stepwise fold, whether the
  entries are constant or not.
  \<^item> For \<open>T \<ge> 1\<close> every entry is laid out as \<open>T - 1\<close> rows of \<open>batch_sz\<close> values, row \<open>k\<close>
    holding the values of step \<open>k\<close>.
  \<^item> For \<open>T \<ge> 2\<close> the result is that of folding \<open>T - 1\<close> steps of the batch integrator over
    the grid \<open>[0, 1]\<close>, each started from the batch state the previous one ended in, and
    assembling \<open>x0\<close> in front of the recorded states, per instance and in order.
  \<^item> For \<open>T = 1\<close> no step is folded; the step is traced once on placeholder parameters, an
    exception of this call is raised, and when the call returns non-empty trajectories
    the result is \<open>x0\<close> alone, one state per instance.
  \<^item> For \<open>T \<ge> 1\<close> a result has shape \<open>(batch_sz, T, d)\<close>: one trajectory per instance, of
    \<open>T\<close> states of the dimension of that instance's initial state, the first being that
    initial state.
\<close>

theorem run_batch_folds:
  assumes "x0 \<noteq> []" and "list_all (has_batch_shape T (length x0)) theta"
  shows "(1 \<le> T \<longrightarrow> sequence_err (map (expand_and_transpose T (length x0)) theta)
              = Inr (map (\<lambda>a. map (\<lambda>k. step_values k a) [0..<nat (T - 1)]) theta))
         \<and> (2 \<le> T \<longrightarrow> run_batch bode T x0 theta =
              bind_err (fold_batch_steps bode x0 (map (step_params theta) [0..<nat (T - 1)]))
                (assemble x0))
         \<and> (T = 1 \<and> bode x0 [0, 1] (replicate (length theta) (replicate (length x0) 0)) = Inl e
              \<and> e \<noteq> NonFinite
            \<longrightarrow> run_batch bode T x0 theta = Inl e)
         \<and> (T = 1 \<and> bode x0 [0, 1] (replicate (length theta) (replicate (length x0) 0)) = Inr Y
              \<and> list_all (\<lambda>tr. tr \<noteq> []) Y \<and> map (\<lambda>tr. length (last tr)) Y = map length x0
            \<longrightarrow> run_batch bode T x0 theta = Inr (map (\<lambda>x. [x]) x0))
         \<and> (1 \<le> T \<and> run_batch bode T x0 theta = Inr Xb
            \<longrightarrow> length Xb = length x0
                \<and> (\<forall>i<length x0. length (Xb ! i) = nat T \<and> hd (Xb ! i) = x0 ! i
                      \<and> list_all (\<lambda>s. length s = length (x0 ! i)) (Xb ! i)))"
proof -
  let ?sl = "map (step_params theta) [0..<nat (T - 1)]"
  let ?z = "replicate (length theta) (replicate (length x0) (0::real))"
  have b: "0 < length x0" using assms(1) by simp
  have c1: "sequence_err (map (expand_and_transpose T (length x0)) theta)
      = Inr (map (\<lambda>a. map (\<lambda>k. step_values k a) [0..<nat (T - 1)]) theta)" if "1 \<le> T"
    by (rule sequence_err_expand [OF that b assms(2)])
  have c2: "run_batch bode T x0 theta = bind_err (fold_batch_steps bode x0 ?sl) (assemble x0)"
    if "2 \<le> T"
    by (rule run_batch_fold [OF that assms])
  have one: "run_batch bode T x0 theta =
      bind_err (traced (advance_batch bode x0 ?z)) (\<lambda>u. Inr (map (\<lambda>x. [x]) x0))" if "T = 1"
    using assms(2) unfolding that by (rule run_batch_single_point [OF assms(1)])
  have c3: "run_batch bode T x0 theta = Inl e"
    if "T = 1 \<and> bode x0 [0, 1] ?z = Inl e \<and> e \<noteq> NonFinite"
  proof -
    from that have t: "T = 1" and o: "bode x0 [0, 1] ?z = Inl e" and e: "e \<noteq> NonFinite"
      by simp_all
    show ?thesis
      unfolding one [OF t] traced_advance_batch_raises [of bode x0 ?z e, OF o e] bind_err_simps ..
  qed
  have c4: "run_batch bode T x0 theta = Inr (map (\<lambda>x. [x]) x0)"
    if "T = 1 \<and> bode x0 [0, 1] ?z = Inr Y
        \<and> list_all (\<lambda>tr. tr \<noteq> []) Y \<and> map (\<lambda>tr. length (last tr)) Y = map length x0"
  proof -
    from that have t: "T = 1" and o: "bode x0 [0, 1] ?z = Inr Y"
      and l: "list_all (\<lambda>tr. tr \<noteq> []) Y"
      by simp_all
    show ?thesis
      unfolding one [OF t] traced_advance_batch_returns [of bode x0 ?z Y, OF o l] bind_err_simps ..
  qed
  have c5: "length Xb = length x0
      \<and> (\<forall>i<length x0. length (Xb ! i) = nat T \<and> hd (Xb ! i) = x0 ! i
            \<and> list_all (\<lambda>s. length s = length (x0 ! i)) (Xb ! i))"
    if "1 \<le> T \<and> run_batch bode T x0 theta = Inr Xb"
  proof (cases "T = 1")
    case True
    from that have "run_batch bode T x0 theta = Inr Xb" by simp
    then have "Xb = map (\<lambda>x. [x]) x0"
      unfolding one [OF True] bind_err_Inr_iff by auto
    with True show ?thesis by simp
  next
    case False
    with that have t: "2 \<le> T" and r: "run_batch bode T x0 theta = Inr Xb"
      by simp_all
    from r obtain Xs where f: "fold_batch_steps bode x0 ?sl = Inr Xs"
      and a: "assemble x0 Xs = Inr Xb"
      unfolding c2 [OF t] bind_err_Inr_iff by blast
    from f have "length Xs = nat (T - 1)"
      by (auto dest: length_fold_batch_steps)
    then have "Suc (length Xs) = nat T"
      using t by simp
    with assemble_shape [OF a] show ?thesis by simp
  qed
  from c1 c2 c3 c4 c5 show ?thesis by blast
qed

lemma sir_batch_trace_step:
  "build_odeint_batch euler_odeint sir_dx_dt [[90, 10, 0, 10], [990, 10, 0, 10]] [0, 1]
     [[0, 0], [0, 0]]
     = Inr [[[90, 10, 0, 10], [90, 10, 0, 10]], [[990, 10, 0, 10], [990, 10, 0, 10]]]"
proof -
  have x: "[[90, 10, 0, 10], [990, 10, 0, 10 :: real]] \<noteq> []"
    by simp
  have r: "list_all (\<lambda>r. length r = 4) [[90, 10, 0, 10], [990, 10, 0, 10 :: real]]"
    by simp
  have a: "[[0, 0], [0, 0 :: real]] \<noteq> []"
    by simp
  have l: "list_all (\<lambda>a. length a = length [[90, 10, 0, 10], [990, 10, 0, 10 :: real]])
      [[0, 0], [0, 0 :: real]]"
    by simp
  have c: "concat [[90, 10, 0, 10], [990, 10, 0, 10 :: real]] = [90, 10, 0, 10, 990, 10, 0, 10]"
    by simp
  have d: "dx_dt_batch sir_dx_dt [90, 10, 0, 10, 990, 10, 0, 10] 0 [[0, 0], [0, 0]]
      = Inr [0, 0, 0, 0, 0, 0, 0, 0]"
    using dx_dt_batch_rows [OF x r a l, of sir_dx_dt 0] unfolding c
    by (simp add: sir_dx_dt_def np_div_def bind_err_simps Let_def)
  have e: "euler_odeint (dx_dt_batch sir_dx_dt) [90, 10, 0, 10, 990, 10, 0, 10] [0, 1]
       [[0, 0], [0, 0]]
     = Inr [[90, 10, 0, 10, 990, 10, 0, 10], [90, 10, 0, 10, 990, 10, 0, 10]]"
    by (simp add: euler_odeint_def d bind_err_simps)
  show ?thesis
    by (simp add: build_odeint_batch_def odeint_batch_def ncols_def e bind_err_simps
        reshape3_def swapaxes01_def)
qed

theorem run_batch_folds_witness:
  "run_batch (build_odeint_batch euler_odeint sir_dx_dt) 2 [[90, 10, 0, 10], [990, 10, 0, 10]]
     [BVec [1 / 5, 3 / 10], BVec [1 / 10, 1 / 10]]
     = Inr [[[90, 10, 0, 10], [441 / 5, 54 / 5, 1, 59 / 5]],
            [[990, 10, 0, 10], [98703 / 100, 1197 / 100, 1, 1297 / 100]]]
   \<and> run_batch (build_odeint_batch euler_odeint sir_dx_dt) 1 [[90, 10, 0, 10], [990, 10, 0, 10]]
       [BVec [1 / 5, 3 / 10], BMat [[], []]]
     = Inr [[[90, 10, 0, 10]], [[990, 10, 0, 10]]]
   \<and> sequence_err (map (expand_and_transpose 3 (length [[90, 10, 0, 10], [990, 10, 0, 10 :: real]]))
         [BVec [1 / 5, 3 / 10], BMat [[1 / 10, 2 / 10], [3 / 10, 4 / 10]]])
     = Inr [[[1 / 5, 3 / 10], [1 / 5, 3 / 10]], [[1 / 10, 3 / 10], [2 / 10, 4 / 10]]]"
proof -
  let ?bode = "build_odeint_batch euler_odeint sir_dx_dt"
  let ?x0 = "[[90, 10, 0, 10], [990, 10, 0, 10]] :: real list list"
  let ?th2 = "[BVec [1 / 5, 3 / 10], BVec [1 / 10, 1 / 10]]"
  let ?th1 = "[BVec [1 / 5, 3 / 10], BMat [[], []]]"
  let ?th3 = "[BVec [1 / 5, 3 / 10], BMat [[1 / 10, 2 / 10], [3 / 10, 4 / 10]]]"
  have x: "?x0 \<noteq> []"
    by simp
  have s2: "list_all (has_batch_shape 2 (length ?x0)) ?th2"
    by simp
  have s1: "list_all (has_batch_shape 1 (length ?x0)) ?th1"
    by simp
  have s3: "list_all (has_batch_shape 3 (length ?x0)) ?th3"
    by simp
  have t2: "(2::int) \<le> 2"
    by simp
  have sl: "map (step_params ?th2) [0..<nat (2 - 1)] = [[[1 / 5, 3 / 10], [1 / 10, 1 / 10]]]"
    by (simp add: step_params_def)
  have f: "fold_batch_steps ?bode ?x0 [[[1 / 5, 3 / 10], [1 / 10, 1 / 10]]]
      = Inr [[[441 / 5, 54 / 5, 1, 59 / 5], [98703 / 100, 1197 / 100, 1, 1297 / 100]]]"
    by (simp add: sir_batch_unit_step)
  have a: "assemble ?x0 [[[441 / 5, 54 / 5, 1, 59 / 5], [98703 / 100, 1197 / 100, 1, 1297 / 100]]]
      = Inr [[[90, 10, 0, 10], [441 / 5, 54 / 5, 1, 59 / 5]],
             [[990, 10, 0, 10], [98703 / 100, 1197 / 100, 1, 1297 / 100]]]"
    by (simp add: assemble_def)
  have r2: "run_batch ?bode 2 ?x0 ?th2
      = Inr [[[90, 10, 0, 10], [441 / 5, 54 / 5, 1, 59 / 5]],
             [[990, 10, 0, 10], [98703 / 100, 1197 / 100, 1, 1297 / 100]]]"
    unfolding run_batch_folds [OF x s2, of ?bode, THEN conjunct2, THEN conjunct1, THEN mp, OF t2]
      sl f bind_err_simps a ..
  have h1: "(1::int) = 1
      \<and> ?bode ?x0 [0, 1] (replicate (length ?th1) (replicate (length ?x0) 0))
        = Inr [[[90, 10, 0, 10], [90, 10, 0, 10]], [[990, 10, 0, 10], [990, 10, 0, 10]]]
      \<and> list_all (\<lambda>tr. tr \<noteq> [])
          [[[90, 10, 0, 10], [90, 10, 0, 10]], [[990, 10, 0, 10], [990, 10, 0, 10 :: real]]]
      \<and> map (\<lambda>tr. length (last tr))
          [[[90, 10, 0, 10], [90, 10, 0, 10]], [[990, 10, 0, 10], [990, 10, 0, 10 :: real]]]
        = map length ?x0"
    by (simp add: sir_batch_trace_step eval_nat_numeral)
  have r1: "run_batch ?bode 1 ?x0 ?th1 = Inr (map (\<lambda>x. [x]) ?x0)"
    using run_batch_folds [OF x s1, of ?bode _
        "[[[90, 10, 0, 10], [90, 10, 0, 10]], [[990, 10, 0, 10], [990, 10, 0, 10]]]",
        THEN conjunct2, THEN conjunct2, THEN conjunct2, THEN conjunct1, THEN mp, OF h1] .
  have t3: "(1::int) \<le> 3"
    by simp
  have r3: "sequence_err (map (expand_and_transpose 3 (length ?x0)) ?th3)
      = Inr (map (\<lambda>a. map (\<lambda>k. step_values k a) [0..<nat (3 - 1)]) ?th3)"
    using run_batch_folds [OF x s3, THEN conjunct1, THEN mp, OF t3] .
  have v3: "map (\<lambda>a. map (\<lambda>k. step_values k a) [0..<nat (3 - 1)]) ?th3
      = [[[1 / 5, 3 / 10], [1 / 5, 3 / 10]], [[1 / 10, 3 / 10], [2 / 10, 4 / 10]]]"
    by (simp add: eval_nat_numeral)
  from r2 r1 r3 show ?thesis
    unfolding v3 by simp
qed

end
